theory Spec2Isabelle
  imports Complex_Main
begin

section \<open>Numbers\<close>

text \<open>
  The program runs as compiled for x86-64 with the GNU C library, and the embedding follows
  that platform where C leaves a result open: \<open>int\<close> is 32 bits wide and its arithmetic
  wraps around, \<open>long\<close> is 64 bits wide, \<open>double\<close> is the IEEE 754 binary64 format with
  rounding to nearest, ties to even.
\<close>

definition wrap32 :: "int \<Rightarrow> int" where
  \<comment> \<open>the value of a 32-bit two's complement \<open>int\<close> that holds \<open>v\<close> modulo \<open>2 ^ 32\<close>\<close>
  "wrap32 v = (v + 2147483648) mod 4294967296 - 2147483648"

definition clamp64 :: "int \<Rightarrow> int" where
  \<comment> \<open>\<^verbatim>\<open>strtol\<close> returns \<^verbatim>\<open>LONG_MIN\<close> or \<^verbatim>\<open>LONG_MAX\<close> for a value outside \<open>long\<close>\<close>
  "clamp64 v = max (- 9223372036854775808) (min 9223372036854775807 v)"

subsection \<open>Doubles\<close>

text \<open>
  A \<open>double\<close> is \<open>NaN\<close>, an infinity or a finite value, given as the rational number it
  denotes.  The two zeros are one value: the program never looks at the sign of a zero.
  \<open>round64\<close> is the rounding of a rational number to the nearest finite double, or to an
  infinity where the result is out of range; every arithmetic operation is the exact
  operation followed by this rounding.
\<close>

datatype double = NaN | PInf | MInf | Finite rat

definition sq :: "rat \<Rightarrow> rat" where
  "sq x = x * x"

function npow2 :: "int \<Rightarrow> rat" where
  \<comment> \<open>\<open>2 ^ e\<close> for \<open>e \<ge> 0\<close>, by repeated squaring\<close>
  "npow2 e =
     (if e \<le> 0 then 1
      else if even e then sq (npow2 (e div 2))
      else 2 * sq (npow2 (e div 2)))"
  by pat_completeness auto
termination
  by (relation "measure nat") auto

declare npow2.simps [simp del]

definition pow2 :: "int \<Rightarrow> rat" where
  "pow2 e = (if 0 \<le> e then npow2 e else 1 / npow2 (- e))"

function ilog2 :: "int \<Rightarrow> int" where
  \<comment> \<open>for \<open>n > 0\<close>, the \<open>k\<close> with \<open>2 ^ k \<le> n < 2 ^ (k + 1)\<close>\<close>
  "ilog2 n = (if n < 2 then 0 else 1 + ilog2 (n div 2))"
  by pat_completeness auto
termination
  by (relation "measure nat") auto

declare ilog2.simps [simp del]

definition binade :: "rat \<Rightarrow> int" where
  \<comment> \<open>for \<open>a > 0\<close>, the \<open>e\<close> with \<open>2 ^ e \<le> a < 2 ^ (e + 1)\<close>\<close>
  "binade a =
     (let k = ilog2 (fst (quotient_of a)) - ilog2 (snd (quotient_of a))
      in if pow2 k \<le> a then k else k - 1)"

definition round_even :: "rat \<Rightarrow> int" where
  \<comment> \<open>the nearest integer, the even one of two that are equally near\<close>
  "round_even q =
     (if q - of_int \<lfloor>q\<rfloor> < 1 / 2 then \<lfloor>q\<rfloor>
      else if 1 / 2 < q - of_int \<lfloor>q\<rfloor> then \<lfloor>q\<rfloor> + 1
      else if even \<lfloor>q\<rfloor> then \<lfloor>q\<rfloor> else \<lfloor>q\<rfloor> + 1)"

definition ulp :: "rat \<Rightarrow> rat" where
  \<comment> \<open>the spacing of the doubles around \<open>a > 0\<close>: 53 significant bits, and the spacing
      of the subnormal numbers below \<open>2 ^ -1022\<close>\<close>
  "ulp a = pow2 (max (binade a) (- 1022) - 52)"

definition expo :: "rat \<Rightarrow> int" where
  "expo a = max (binade a) (- 1022)"

definition round_pos :: "rat \<Rightarrow> rat" where
  "round_pos a = of_int (round_even (a / ulp a)) * ulp a"

definition sround :: "rat \<Rightarrow> rat" where
  "sround x = (if x = 0 then 0 else if 0 < x then round_pos x else - round_pos (- x))"

definition huge_val :: rat where
  \<comment> \<open>\<open>2 ^ 1024\<close>: a result of this magnitude is an infinity\<close>
  "huge_val = 179769313486231590772930519078902473361797697894230657273430081157732675805500963132708477322407536021120113879871393357658789768814416622492847430639474124377767893424865485276302219601246094119453082952085005768838150682342462881473913110540827237163350510684586298239947245938479716304835356329624224137216"

definition round64 :: "rat \<Rightarrow> double" where
  "round64 x =
     (if huge_val \<le> sround x then PInf
      else if sround x \<le> - huge_val then MInf
      else Finite (sround x))"

definition isnan :: "double \<Rightarrow> bool" where
  "isnan d = (case d of NaN \<Rightarrow> True | PInf \<Rightarrow> False | MInf \<Rightarrow> False | Finite v \<Rightarrow> False)"

definition d_sign :: "double \<Rightarrow> int" where
  "d_sign d =
     (case d of
        NaN \<Rightarrow> 0
      | PInf \<Rightarrow> 1
      | MInf \<Rightarrow> - 1
      | Finite a \<Rightarrow> if 0 < a then 1 else if a < 0 then - 1 else 0)"

definition inf_of_sign :: "int \<Rightarrow> double" where
  \<comment> \<open>the infinity of a sign; the sign 0 stands for an invalid operation\<close>
  "inf_of_sign s = (if s = 0 then NaN else if 0 < s then PInf else MInf)"

definition d_neg :: "double \<Rightarrow> double" where
  "d_neg d = (case d of NaN \<Rightarrow> NaN | PInf \<Rightarrow> MInf | MInf \<Rightarrow> PInf | Finite a \<Rightarrow> Finite (- a))"

definition fabs :: "double \<Rightarrow> double" where
  "fabs d = (case d of NaN \<Rightarrow> NaN | PInf \<Rightarrow> PInf | MInf \<Rightarrow> PInf | Finite a \<Rightarrow> Finite \<bar>a\<bar>)"

definition d_sub :: "double \<Rightarrow> double \<Rightarrow> double" where
  "d_sub x y =
     (case (x, y) of
        (Finite a, Finite b) \<Rightarrow> round64 (a - b)
      | (Finite a, PInf) \<Rightarrow> MInf
      | (Finite a, MInf) \<Rightarrow> PInf
      | (PInf, Finite b) \<Rightarrow> PInf
      | (PInf, MInf) \<Rightarrow> PInf
      | (MInf, Finite b) \<Rightarrow> MInf
      | (MInf, PInf) \<Rightarrow> MInf
      | _ \<Rightarrow> NaN)"

definition d_mul :: "double \<Rightarrow> double \<Rightarrow> double" where
  "d_mul x y =
     (case (x, y) of
        (Finite a, Finite b) \<Rightarrow> round64 (a * b)
      | _ \<Rightarrow> if isnan x \<or> isnan y then NaN else inf_of_sign (d_sign x * d_sign y))"

definition d_div :: "double \<Rightarrow> double \<Rightarrow> double" where
  \<comment> \<open>a zero divisor counts as \<open>+0\<close>: the divisors of the program are constants and
      results of \<^verbatim>\<open>fabs\<close>\<close>
  "d_div x y =
     (case (x, y) of
        (Finite a, Finite b) \<Rightarrow> if b = 0 then inf_of_sign (d_sign x) else round64 (a / b)
      | (Finite a, PInf) \<Rightarrow> Finite 0
      | (Finite a, MInf) \<Rightarrow> Finite 0
      | (PInf, Finite b) \<Rightarrow> if b < 0 then MInf else PInf
      | (MInf, Finite b) \<Rightarrow> if b < 0 then PInf else MInf
      | _ \<Rightarrow> NaN)"

definition d_less :: "double \<Rightarrow> double \<Rightarrow> bool" where
  "d_less x y =
     (case (x, y) of
        (Finite a, Finite b) \<Rightarrow> a < b
      | (Finite a, PInf) \<Rightarrow> True
      | (MInf, Finite b) \<Rightarrow> True
      | (MInf, PInf) \<Rightarrow> True
      | _ \<Rightarrow> False)"

definition d_eq :: "double \<Rightarrow> double \<Rightarrow> bool" where
  "d_eq x y = (if isnan x \<or> isnan y then False else x = y)"

definition d_neq :: "double \<Rightarrow> double \<Rightarrow> bool" where
  \<comment> \<open>the operator \<^verbatim>\<open>!=\<close>, which holds when an operand is \<open>NaN\<close>\<close>
  "d_neq x y = (if d_eq x y then False else True)"

definition d_ge :: "double \<Rightarrow> double \<Rightarrow> bool" where
  "d_ge x y = (if d_less y x then True else d_eq x y)"

definition trunc0 :: "rat \<Rightarrow> int" where
  \<comment> \<open>the integer part: the fractional part is discarded\<close>
  "trunc0 a = (if 0 \<le> a then \<lfloor>a\<rfloor> else \<lceil>a\<rceil>)"

definition c_int_cast :: "double \<Rightarrow> int" where
  \<comment> \<open>the cast \<open>(int)d\<close>: the fractional part is discarded; where the result does not fit
      an \<open>int\<close>, or \<open>d\<close> is not finite, C leaves the result open and the conversion
      instruction of the platform gives \<^verbatim>\<open>INT_MIN\<close>\<close>
  "c_int_cast d =
     (case d of
        Finite a \<Rightarrow>
          if - 2147483648 \<le> trunc0 a \<and> trunc0 a \<le> 2147483647 then trunc0 a
          else - 2147483648
      | _ \<Rightarrow> - 2147483648)"

section \<open>The C library, as far as the program uses it\<close>

text \<open>
  A C string is the list of its characters up to the terminating NUL.  A file is the string
  of its bytes, and \<open>None\<close> where \<^verbatim>\<open>fopen\<close> fails.
\<close>

definition isspace :: "char \<Rightarrow> bool" where
  "isspace c \<longleftrightarrow> c = CHR '' '' \<or> c = CHR 0x09 \<or> c = CHR 0x0A \<or> c = CHR 0x0B
     \<or> c = CHR 0x0C \<or> c = CHR 0x0D"

definition isdigit :: "char \<Rightarrow> bool" where
  "isdigit c \<longleftrightarrow> c \<in> set ''0123456789''"

definition digit_val :: "char \<Rightarrow> int" where
  "digit_val c = of_char c - 48"

definition dec_val :: "string \<Rightarrow> int" where
  "dec_val ds = foldl (\<lambda>a c. 10 * a + digit_val c) 0 ds"

definition c_str :: "string \<Rightarrow> string" where
  \<comment> \<open>what the string functions see of a buffer: the bytes before the first NUL\<close>
  "c_str buf = takeWhile (\<lambda>c. c \<noteq> CHR 0x00) buf"

fun strstr :: "string \<Rightarrow> string \<Rightarrow> string option" where
  \<comment> \<open>the suffix of the haystack that starts at the first occurrence of the needle\<close>
  "strstr [] needle = (if needle = [] then Some [] else None)"
| "strstr (c # s) needle =
     (if take (length needle) (c # s) = needle then Some (c # s) else strstr s needle)"

definition strchr :: "string \<Rightarrow> char \<Rightarrow> string option" where
  "strchr s c = (case dropWhile (\<lambda>a. a \<noteq> c) s of [] \<Rightarrow> None | a # r \<Rightarrow> Some (a # r))"

fun fgets :: "nat \<Rightarrow> string \<Rightarrow> string \<times> string" where
  \<comment> \<open>\<^verbatim>\<open>fgets(buf, n, fp)\<close> on the unread rest of the file: at most \<open>n - 1\<close> bytes, up to and
      including the first newline; returns the bytes read and the new unread rest\<close>
  "fgets n [] = ([], [])"
| "fgets n (c # s) =
     (if n \<le> 1 then ([], c # s)
      else if c = CHR 0x0A then ([c], s)
      else (let (l, r) = fgets (n - 1) s in (c # l, r)))"

lemma fgets_shorter: "1 < n \<Longrightarrow> s \<noteq> [] \<Longrightarrow> length (snd (fgets n s)) < length s"
proof (induction n s rule: fgets.induct)
  case (1 n)
  then show ?case by simp
next
  case (2 n c s)
  show ?case
  proof (cases "c = CHR 0x0A")
    case True
    then show ?thesis using 2 by simp
  next
    case nonl: False
    show ?thesis
    proof (cases "1 < n - 1 \<and> s \<noteq> []")
      case True
      then show ?thesis using 2 nonl by (simp add: split_beta)
    next
      case False
      then consider "s = []" | "n - 1 \<le> 1" "s \<noteq> []" by linarith
      then show ?thesis using 2 nonl
        by cases (auto simp: split_beta neq_Nil_conv)
    qed
  qed
qed

function file_lines :: "nat \<Rightarrow> string \<Rightarrow> string list" where
  \<comment> \<open>the successive buffers that \<^verbatim>\<open>while (fgets(line, n, fp))\<close> sees until end of file\<close>
  "file_lines n s =
     (if s = [] \<or> n \<le> 1 then []
      else (let (l, r) = fgets n s in c_str l # file_lines n r))"
  by pat_completeness auto
termination
proof (relation "measure (\<lambda>(n, s). length s)")
  show "wf (measure (\<lambda>(n, s). length s))" by simp
next
  fix n s x l r
  assume "\<not> (s = [] \<or> n \<le> 1)" "x = fgets n s" "(l, r) = x"
  then show "((n, r), (n, s)) \<in> measure (\<lambda>(n, s). length s)"
    using fgets_shorter[of n s] by (metis (mono_tags, lifting) case_prod_conv in_measure not_le snd_conv)
qed

declare file_lines.simps [simp del]

subsection \<open>Formatted input\<close>

text \<open>
  \<^verbatim>\<open>sscanf\<close> is modelled for the directives that occur in the program's format strings:
  white space, ordinary characters, \<^verbatim>\<open>%%\<close>, \<^verbatim>\<open>%d\<close>, \<^verbatim>\<open>%lf\<close>, \<^verbatim>\<open>%c\<close> and \<^verbatim>\<open>%*s\<close>.
  The result is the list of the items assigned, in order.  (The C function returns their
  number, or \<^verbatim>\<open>EOF\<close> when the input ends before the first conversion; the program only
  ever compares that number with a positive count.)  The conversions follow the GNU C
  library: \<^verbatim>\<open>%d\<close> converts the digits as \<^verbatim>\<open>strtol\<close> does and stores the low 32 bits of the
  result; \<^verbatim>\<open>%lf\<close> first collects the characters that can belong to a number, then converts
  the longest initial part of them that is one, as \<^verbatim>\<open>strtod\<close> does.
\<close>

datatype directive = WS | Lit char | Pct | ConvD | ConvLF | ConvC | SkipS

fun parse_format :: "string \<Rightarrow> directive list" where
  "parse_format [] = []"
| "parse_format [c] = [if isspace c then WS else Lit c]"
| "parse_format (c # d # fs) =
     (if c = CHR ''%'' then
        (if d = CHR ''%'' then Pct # parse_format fs
         else if d = CHR ''d'' then ConvD # parse_format fs
         else if d = CHR ''c'' then ConvC # parse_format fs
         else if d = CHR ''l'' then ConvLF # parse_format (tl fs)
         else if d = CHR ''*'' then SkipS # parse_format (tl fs)
         else [])
      else if isspace c then WS # parse_format (d # fs)
      else Lit c # parse_format (d # fs))"

datatype sval = VInt int | VDbl double | VChr char

definition skip_ws :: "string \<Rightarrow> string" where
  "skip_ws s = dropWhile isspace s"

definition scan_sign :: "string \<Rightarrow> bool \<times> string" where
  "scan_sign s =
     (case s of
        [] \<Rightarrow> (False, [])
      | c # r \<Rightarrow> if c = CHR ''-'' then (True, r) else if c = CHR ''+'' then (False, r) else (False, s))"

definition strtol_val :: "bool \<Rightarrow> string \<Rightarrow> int" where
  \<comment> \<open>the \<open>int\<close> that receives the \<open>long\<close> result of \<^verbatim>\<open>strtol\<close> for a sign and decimal digits\<close>
  "strtol_val neg ds = wrap32 (clamp64 (if neg then - dec_val ds else dec_val ds))"

definition scan_int :: "string \<Rightarrow> (int \<times> string) option" where
  "scan_int s =
     (let (neg, s1) = scan_sign s; ds = takeWhile isdigit s1
      in if ds = [] then None
         else Some (strtol_val neg ds, dropWhile isdigit s1))"

definition tolower :: "char \<Rightarrow> char" where
  "tolower c = (if 65 \<le> (of_char c :: nat) \<and> (of_char c :: nat) \<le> 90
                then char_of (of_char c + 32 :: nat) else c)"

definition isxdigit :: "char \<Rightarrow> bool" where
  "isxdigit c \<longleftrightarrow> c \<in> set ''0123456789abcdefABCDEF''"

definition xdigit_val :: "char \<Rightarrow> int" where
  "xdigit_val c =
     (if isdigit c then of_char c - 48 else of_char (tolower c) - 87)"

definition hex_val :: "string \<Rightarrow> int" where
  "hex_val ds = foldl (\<lambda>a c. 16 * a + xdigit_val c) 0 ds"

fun float_chars :: "bool \<Rightarrow> bool \<Rightarrow> bool \<Rightarrow> bool \<Rightarrow> bool \<Rightarrow> string \<Rightarrow> string \<times> string" where
  \<comment> \<open>the characters that \<^verbatim>\<open>%lf\<close> collects after the sign (and after \<^verbatim>\<open>0x\<close>), and the
      unread rest; an exponent letter is collected in lower case\<close>
  "float_chars hexa got_digit got_dot got_e at_exp [] = ([], [])"
| "float_chars hexa got_digit got_dot got_e at_exp (c # s) =
     (if isdigit c then
        (let (b, r) = float_chars hexa True got_dot got_e False s in (c # b, r))
      else if \<not> got_e \<and> hexa \<and> isxdigit c then
        (let (b, r) = float_chars hexa True got_dot got_e False s in (c # b, r))
      else if got_e \<and> at_exp \<and> (c = CHR ''-'' \<or> c = CHR ''+'') then
        (let (b, r) = float_chars hexa got_digit got_dot got_e False s in (c # b, r))
      else if got_digit \<and> \<not> got_e \<and> tolower c = (if hexa then CHR ''p'' else CHR ''e'') then
        (let (b, r) = float_chars hexa got_digit True True True s in (tolower c # b, r))
      else if c = CHR ''.'' \<and> \<not> got_dot then
        (let (b, r) = float_chars hexa got_digit True got_e False s in (c # b, r))
      else ([], c # s))"

definition pow10 :: "int \<Rightarrow> rat" where
  "pow10 e = (if 0 \<le> e then 10 ^ nat e else 1 / 10 ^ nat (- e))"

definition exponent_val :: "string \<Rightarrow> int" where
  \<comment> \<open>the exponent after the exponent letter; without digits there is none\<close>
  "exponent_val t =
     (let (neg, t1) = scan_sign t; ds = takeWhile isdigit t1
      in if ds = [] then 0 else if neg then - dec_val ds else dec_val ds)"

definition dec_float_val :: "string \<Rightarrow> rat option" where
  \<comment> \<open>\<^verbatim>\<open>strtod\<close> on collected characters in decimal notation\<close>
  "dec_float_val b =
     (let ip = takeWhile isdigit b; r1 = dropWhile isdigit b;
          (fp, r2) = (case r1 of
                        [] \<Rightarrow> ([], r1)
                      | c # t \<Rightarrow> if c = CHR ''.'' then (takeWhile isdigit t, dropWhile isdigit t)
                                else ([], r1))
      in if ip = [] \<and> fp = [] then None
         else Some (of_int (dec_val (ip @ fp)) / 10 ^ length fp
                    * pow10 (case r2 of [] \<Rightarrow> 0
                             | c # t \<Rightarrow> if c = CHR ''e'' then exponent_val t else 0)))"

definition hex_float_val :: "string \<Rightarrow> rat" where
  \<comment> \<open>\<^verbatim>\<open>strtod\<close> on the characters collected after \<^verbatim>\<open>0x\<close>; without a hexadecimal digit
      it converts the \<^verbatim>\<open>0\<close> alone\<close>
  "hex_float_val b =
     (let ip = takeWhile isxdigit b; r1 = dropWhile isxdigit b;
          (fp, r2) = (case r1 of
                        [] \<Rightarrow> ([], r1)
                      | c # t \<Rightarrow> if c = CHR ''.'' then (takeWhile isxdigit t, dropWhile isxdigit t)
                                else ([], r1))
      in if ip = [] \<and> fp = [] then 0
         else of_int (hex_val (ip @ fp)) / 16 ^ length fp
              * pow2 (case r2 of [] \<Rightarrow> 0
                      | c # t \<Rightarrow> if c = CHR ''p'' then exponent_val t else 0))"

definition signed_double :: "bool \<Rightarrow> rat \<Rightarrow> double" where
  "signed_double neg v = round64 (if neg then - v else v)"

definition scan_double :: "string \<Rightarrow> (double \<times> string) option" where
  "scan_double s =
     (let (neg, s1) = scan_sign s
      in case s1 of
           [] \<Rightarrow> None
         | c # t \<Rightarrow>
             if tolower c = CHR ''n'' then
               (if map tolower (take 3 s1) = ''nan'' then Some (NaN, drop 3 s1) else None)
             else if tolower c = CHR ''i'' then
               (if map tolower (take 3 s1) = ''inf'' then
                  (case drop 3 s1 of
                     [] \<Rightarrow> Some (if neg then MInf else PInf, [])
                   | d # u \<Rightarrow>
                       if tolower d = CHR ''i'' then
                         (if map tolower (take 5 (d # u)) = ''inity''
                          then Some (if neg then MInf else PInf, drop 5 (d # u)) else None)
                       else Some (if neg then MInf else PInf, d # u))
                else None)
             else if c = CHR ''0'' \<and> map tolower (take 1 t) = ''x'' then
               (let (b, r) = float_chars True False False False False (drop 1 t)
                in if b = [] then None else Some (signed_double neg (hex_float_val b), r))
             else
               (let (b, r) = float_chars False False False False False s1
                in case dec_float_val b of
                     None \<Rightarrow> None
                   | Some v \<Rightarrow> Some (signed_double neg v, r)))"

fun scan :: "directive list \<Rightarrow> string \<Rightarrow> sval list \<times> string" where
  \<comment> \<open>the items assigned, and the unread rest of the input (which the program uses
      after a complete match only)\<close>
  "scan [] s = ([], s)"
| "scan (WS # ds) s = scan ds (skip_ws s)"
| "scan (Lit c # ds) s =
     (case s of [] \<Rightarrow> ([], s) | a # r \<Rightarrow> if a = c then scan ds r else ([], s))"
| "scan (Pct # ds) s =
     (case skip_ws s of
        [] \<Rightarrow> ([], [])
      | a # r \<Rightarrow> if a = CHR ''%'' then scan ds r else ([], a # r))"
| "scan (ConvD # ds) s =
     (case scan_int (skip_ws s) of
        None \<Rightarrow> ([], skip_ws s)
      | Some (v, r) \<Rightarrow> (let (vs, r') = scan ds r in (VInt v # vs, r')))"
| "scan (ConvLF # ds) s =
     (case scan_double (skip_ws s) of
        None \<Rightarrow> ([], skip_ws s)
      | Some (v, r) \<Rightarrow> (let (vs, r') = scan ds r in (VDbl v # vs, r')))"
| "scan (ConvC # ds) s =
     (case s of [] \<Rightarrow> ([], s) | a # r \<Rightarrow> (let (vs, r') = scan ds r in (VChr a # vs, r')))"
| "scan (SkipS # ds) s =
     (case skip_ws s of
        [] \<Rightarrow> ([], [])
      | a # r \<Rightarrow> scan ds (dropWhile (\<lambda>c. \<not> isspace c) (a # r)))"

definition sscanf :: "string \<Rightarrow> string \<Rightarrow> sval list" where
  "sscanf str format = fst (scan (parse_format format) str)"

definition atoi :: "string \<Rightarrow> int" where
  \<comment> \<open>\<^verbatim>\<open>(int) strtol(s, NULL, 10)\<close>\<close>
  "atoi s =
     (let (neg, s1) = scan_sign (skip_ws s); ds = takeWhile isdigit s1
      in if ds = [] then 0 else strtol_val neg ds)"

definition strtok_r :: "string \<Rightarrow> string \<Rightarrow> (string \<times> string) option" where
  \<comment> \<open>one call of \<^verbatim>\<open>strtok_r\<close> on the text still to be split: the next token and the
      new save pointer, or \<open>None\<close> when only delimiters are left\<close>
  "strtok_r s delim =
     (case dropWhile (\<lambda>a. a \<in> set delim) s of
        [] \<Rightarrow> None
      | c # r \<Rightarrow> Some (takeWhile (\<lambda>a. a \<notin> set delim) (c # r),
                       drop 1 (dropWhile (\<lambda>a. a \<notin> set delim) (c # r))))"

lemma strtok_r_shorter: "strtok_r s delim = Some (token, saveptr) \<Longrightarrow> length saveptr < length s"
proof -
  assume a: "strtok_r s delim = Some (token, saveptr)"
  then obtain c r where cr: "dropWhile (\<lambda>a. a \<in> set delim) s = c # r"
    by (auto simp: strtok_r_def split: list.splits)
  with a have sp: "saveptr = drop 1 (dropWhile (\<lambda>a. a \<notin> set delim) (c # r))"
    by (simp add: strtok_r_def)
  have "length (dropWhile (\<lambda>a. a \<notin> set delim) (c # r)) \<le> length (c # r)"
    by (rule length_dropWhile_le)
  then have "length saveptr < length (c # r)" using sp by simp
  moreover have "length (c # r) \<le> length s"
    using length_dropWhile_le[of "\<lambda>a. a \<in> set delim" s] cr by simp
  ultimately show ?thesis by linarith
qed

section \<open>Coordinate scaling\<close>

text \<open>
  \<^verbatim>\<open>scale_coordinates(x, y, &scaled_x, &scaled_y)\<close>: the two out-parameters are
  returned as a pair.
\<close>

definition scale_coordinates :: "double \<Rightarrow> double \<Rightarrow> int \<times> int" where
  "scale_coordinates x y =
     (let margin = 50; width = 800; height = 600
      in (wrap32 (margin + c_int_cast (d_mul x (Finite (of_int (width - 2 * margin))))),
          wrap32 (margin + c_int_cast (d_mul (d_sub (Finite 1) y)
                                             (Finite (of_int (height - 2 * margin)))))))"

section \<open>Coverage extractor\<close>

definition coverage_line :: "nat \<Rightarrow> double list \<Rightarrow> string \<Rightarrow> double list" where
  \<comment> \<open>the body of the \<^verbatim>\<open>while (fgets(...))\<close> loop, on the array \<^verbatim>\<open>final_not_covered\<close>\<close>
  "coverage_line max_terminals final_not_covered line =
     (if strstr line ''not_covered['' \<noteq> None \<and> strstr line ''] ='' \<noteq> None then
        (case sscanf line ''%*s %*s %*s not_covered[%d] = %lf'' of
           [VInt terminal_id, VDbl not_covered_value] \<Rightarrow>
             if 0 \<le> terminal_id \<and> terminal_id < int max_terminals
             then final_not_covered[nat terminal_id := not_covered_value]
             else final_not_covered
         | _ \<Rightarrow> final_not_covered)
      else final_not_covered)"

definition parse_solution_coverage :: "string option \<Rightarrow> nat \<Rightarrow> int \<times> int list" where
  \<comment> \<open>the return value and the array \<^verbatim>\<open>coverage[0 .. max_terminals)\<close>\<close>
  "parse_solution_coverage solution_file max_terminals =
     (case solution_file of
        None \<Rightarrow> (- 1, replicate max_terminals 1)
      | Some content \<Rightarrow>
          (let final_not_covered =
                 foldl (coverage_line max_terminals) (replicate max_terminals (Finite 0))
                   (file_lines 1024 content)
           in (0, map (\<lambda>v. if d_less v (Finite (1 / 2)) then 1 else 0) final_not_covered)))"



section \<open>Data structures\<close>

text \<open>
  The fields \<^verbatim>\<open>x\<close> and \<^verbatim>\<open>y\<close> of a \<^verbatim>\<open>Terminal\<close> are called \<open>term_x\<close> and \<open>term_y\<close>.
\<close>

record Terminal =
  term_x :: double
  term_y :: double
  battery :: double
  covered :: int
  terminal_id :: int

text \<open>
  An \<^verbatim>\<open>FST\<close> holds two fixed arrays with a count each.  The lists \<open>terminal_ids\<close> and
  \<open>steiner_points\<close> are the entries of the arrays that have been written; the counts are
  kept as the fields the code stores.  A table \<^verbatim>\<open>FST fsts[]\<close> filled by a parser is the
  list of the entries written, in order.
\<close>

record FST =
  selected :: int
  num_terminals :: int
  terminal_ids :: "int list"
  num_steiner_points :: int
  steiner_points :: "(double \<times> double) list"
  cost :: double
  fst_id :: int

section \<open>Tree dump parser\<close>

definition token_is_number :: "string \<Rightarrow> bool" where
  \<comment> \<open>\<^verbatim>\<open>isdigit(token[0]) || (token[0] == '-' && isdigit(token[1]))\<close>\<close>
  "token_is_number token =
     (case token of
        [] \<Rightarrow> False
      | c0 # t \<Rightarrow> isdigit c0 \<or> (c0 = CHR ''-'' \<and> (case t of [] \<Rightarrow> False | c1 # u \<Rightarrow> isdigit c1)))"

function dump_tokens :: "(string \<times> string) option \<Rightarrow> int list \<Rightarrow> int list" where
  \<comment> \<open>the loop \<^verbatim>\<open>while (token && num_terminals < 10)\<close> over the tokens of a line\<close>
  "dump_tokens None terminals = terminals"
| "dump_tokens (Some (token, saveptr)) terminals =
     (if length terminals < 10 then
        dump_tokens (strtok_r saveptr [CHR '' '', CHR 0x09])
          (if token_is_number token then
             (let term = atoi token
              in if 0 \<le> term \<and> term < 50 then terminals @ [term] else terminals)
           else terminals)
      else terminals)"
  by pat_completeness auto
termination
  by (relation "measure (\<lambda>(tok, ts). case tok of None \<Rightarrow> 0 | Some (t, sp) \<Rightarrow> Suc (length sp))")
     (auto split: option.splits dest: strtok_r_shorter)

declare dump_tokens.simps [simp del]

definition dump_trimmed :: "string \<Rightarrow> string" where
  \<comment> \<open>the line without its newline and without leading white space\<close>
  "dump_trimmed line = dropWhile isspace (takeWhile (\<lambda>c. c \<noteq> CHR 0x0A) line)"

definition dump_line_terminals :: "string \<Rightarrow> int list" where
  "dump_line_terminals line =
     dump_tokens (strtok_r (dump_trimmed line) [CHR '' '', CHR 0x09]) []"

definition dump_fst :: "nat \<Rightarrow> int list \<Rightarrow> FST" where
  \<comment> \<open>the entry \<^verbatim>\<open>fsts[count]\<close> written for an accepted line\<close>
  "dump_fst count terminals =
     \<lparr> selected = 0,
       num_terminals = int (length terminals),
       terminal_ids = terminals,
       num_steiner_points = (if 2 < length terminals then 1 else 0),
       steiner_points = [],
       cost = Finite (of_int (wrap32 (100000 + wrap32 (int count * 10000)))),
       fst_id = int count \<rparr>"

fun dump_loop :: "nat \<Rightarrow> string list \<Rightarrow> FST list \<Rightarrow> FST list" where
  \<comment> \<open>\<^verbatim>\<open>while (fgets(...) && count < max_fsts)\<close>, with \<open>count = length fsts\<close>\<close>
  "dump_loop max_fsts [] fsts = fsts"
| "dump_loop max_fsts (line # rest) fsts =
     (if length fsts < max_fsts then
        (if strstr (dump_trimmed line) ''DEBUG'' \<noteq> None \<or> length (dump_trimmed line) = 0
         then dump_loop max_fsts rest fsts
         else (let terminals = dump_line_terminals line
               in if 2 \<le> length terminals
                  then dump_loop max_fsts rest (fsts @ [dump_fst (length fsts) terminals])
                  else dump_loop max_fsts rest fsts))
      else fsts)"

definition parse_fsts_from_dump :: "string option \<Rightarrow> nat \<Rightarrow> int \<times> FST list" where
  "parse_fsts_from_dump dump_file max_fsts =
     (case dump_file of
        None \<Rightarrow> (- 1, [])
      | Some content \<Rightarrow>
          (let fsts = dump_loop max_fsts (file_lines 1024 content) []
           in (int (length fsts), fsts)))"








section \<open>Selected tree ids and their marking on the universe\<close>

fun selected_ids_loop :: "nat \<Rightarrow> string list \<Rightarrow> int list \<Rightarrow> int list" where
  \<comment> \<open>\<^verbatim>\<open>while (fgets(...) && count < max_fsts)\<close>, with \<open>count = length selected_ids\<close>\<close>
  "selected_ids_loop max_fsts [] selected_ids = selected_ids"
| "selected_ids_loop max_fsts (line # rest) selected_ids =
     (if length selected_ids < max_fsts then
        (let trimmed = dropWhile isspace line
         in if strstr trimmed ''% fs'' \<noteq> None \<and> strstr trimmed '':'' \<noteq> None then
              (case sscanf trimmed ''%% fs%d:'' of
                 [VInt fid] \<Rightarrow> selected_ids_loop max_fsts rest (selected_ids @ [fid])
               | _ \<Rightarrow> selected_ids_loop max_fsts rest selected_ids)
            else selected_ids_loop max_fsts rest selected_ids)
      else selected_ids)"

definition parse_selected_fst_ids :: "string option \<Rightarrow> nat \<Rightarrow> int \<times> int list" where
  "parse_selected_fst_ids solution_file max_fsts =
     (case solution_file of
        None \<Rightarrow> (- 1, [])
      | Some content \<Rightarrow>
          (let selected_ids = selected_ids_loop max_fsts (file_lines 1024 content) []
           in (int (length selected_ids), selected_ids)))"

fun mark_if_listed :: "FST \<Rightarrow> int list \<Rightarrow> FST" where
  \<comment> \<open>the inner \<^verbatim>\<open>for (j ...)\<close> loop, which stops at the first equal id\<close>
  "mark_if_listed f [] = f"
| "mark_if_listed f (sid # ids) =
     (if fst_id f = sid then f\<lparr>selected := 1\<rparr> else mark_if_listed f ids)"

definition mark_selected :: "FST list \<Rightarrow> int list \<Rightarrow> FST list" where
  \<comment> \<open>the outer \<^verbatim>\<open>for (i ...)\<close> loop over \<^verbatim>\<open>all_fsts\<close>\<close>
  "mark_selected all_fsts selected_fst_ids =
     map (\<lambda>f. mark_if_listed (f\<lparr>selected := 0\<rparr>) selected_fst_ids) all_fsts"

definition universe_with_selection :: "string option \<Rightarrow> string option \<Rightarrow> FST list" where
  \<comment> \<open>\<^verbatim>\<open>all_fsts\<close> in \<^verbatim>\<open>create_rich_visualization\<close> after the marking loop\<close>
  "universe_with_selection fsts_dump_file solution_file =
     (let all_fsts = snd (parse_fsts_from_dump fsts_dump_file 100);
          selected_fst_ids = snd (parse_selected_fst_ids solution_file 50)
      in mark_selected all_fsts selected_fst_ids)"

section \<open>Selected-tree parser\<close>

fun the_int :: "sval \<Rightarrow> int" where
  "the_int (VInt v) = v"
| "the_int (VDbl d) = 0"
| "the_int (VChr c) = 0"

definition solution_header :: "string \<Rightarrow> (int \<times> int list) option" where
  \<comment> \<open>the tests of the outer loop on a line: the id and the terminal ids of a tree header,
      or \<open>None\<close> where the code goes on to the next line without recording a tree\<close>
  "solution_header line =
     (let trimmed = dropWhile isspace line
      in if strstr trimmed ''% fs'' \<noteq> None \<and> strstr trimmed '':'' \<noteq> None then
           (case sscanf trimmed ''%% fs%d:'' of
              [VInt fid] \<Rightarrow>
                (case strchr trimmed (CHR '':'') of
                   None \<Rightarrow> None
                 | Some colon \<Rightarrow>
                     (let ids = sscanf (dropWhile isspace (drop 1 colon))
                                  ''%d %d %d %d %d %d %d %d %d %d''
                      in if 0 < length ids then Some (fid, map the_int ids) else None))
            | _ \<Rightarrow> None)
         else None)"

definition steiner_line :: "string \<Rightarrow> (double \<times> double) option" where
  \<comment> \<open>\<^verbatim>\<open>sscanf(trimmed, "%lf %lf %d %c S", &x, &y, &term_id, &t_char) == 4 && t_char == 'T'\<close>\<close>
  "steiner_line trimmed =
     (case sscanf trimmed ''%lf %lf %d %c S'' of
        [VDbl px, VDbl py, VInt term_id, VChr t_char] \<Rightarrow>
          if t_char = CHR ''T'' then Some (px, py) else None
      | _ \<Rightarrow> None)"

fun steiner_lookahead :: "FST \<Rightarrow> string list \<Rightarrow> FST \<times> string list" where
  \<comment> \<open>the inner loop; the file position is the list of the lines not yet read, and the
      \<^verbatim>\<open>fseek\<close> back to \<^verbatim>\<open>current_pos\<close> returns the line just read to that list\<close>
  "steiner_lookahead f [] = (f, [])"
| "steiner_lookahead f (line # rest) =
     (case steiner_line (dropWhile isspace line) of
        Some p \<Rightarrow>
          steiner_lookahead
            (if num_steiner_points f = 0
             then f\<lparr>steiner_points := [p], num_steiner_points := 1\<rparr> else f) rest
      | None \<Rightarrow>
          if strstr (dropWhile isspace line) ''% fs'' \<noteq> None
             \<or> strstr (dropWhile isspace line) ''EndPlot'' \<noteq> None
          then (f, line # rest)
          else steiner_lookahead f rest)"

lemma steiner_lookahead_length: "length (snd (steiner_lookahead f ls)) \<le> length ls"
  by (induction f ls rule: steiner_lookahead.induct) (auto split: option.splits simp: le_SucI)

definition solution_fst :: "int \<Rightarrow> int list \<Rightarrow> FST" where
  \<comment> \<open>the entry \<^verbatim>\<open>fsts[fst_count]\<close> as written before the lookahead\<close>
  "solution_fst fid ids =
     \<lparr> selected = 1,
       num_terminals = int (length ids),
       terminal_ids = ids,
       num_steiner_points = 0,
       steiner_points = [],
       cost = Finite 0,
       fst_id = fid \<rparr>"

function solution_loop :: "nat \<Rightarrow> string list \<Rightarrow> FST list \<Rightarrow> FST list" where
  \<comment> \<open>\<^verbatim>\<open>while (fgets(...) && fst_count < max_fsts)\<close>, with \<open>fst_count = length fsts\<close>\<close>
  "solution_loop max_fsts [] fsts = fsts"
| "solution_loop max_fsts (line # rest) fsts =
     (if length fsts < max_fsts then
        (case solution_header line of
           None \<Rightarrow> solution_loop max_fsts rest fsts
         | Some (fid, ids) \<Rightarrow>
             solution_loop max_fsts (snd (steiner_lookahead (solution_fst fid ids) rest))
               (fsts @ [fst (steiner_lookahead (solution_fst fid ids) rest)]))
      else fsts)"
  by pat_completeness auto
termination
  by (relation "measure (\<lambda>(m, ls, fsts). length ls)")
     (auto simp: le_imp_less_Suc steiner_lookahead_length)

declare solution_loop.simps [simp del]

definition parse_fsts_from_solution :: "string option \<Rightarrow> nat \<Rightarrow> int \<times> FST list" where
  "parse_fsts_from_solution solution_file max_fsts =
     (case solution_file of
        None \<Rightarrow> (- 1, [])
      | Some content \<Rightarrow>
          (let fsts = solution_loop max_fsts (file_lines 1024 content) []
           in (int (length fsts), fsts)))"

section \<open>Terminal-list parser\<close>

function terminals_loop :: "nat \<Rightarrow> string \<Rightarrow> Terminal list \<Rightarrow> Terminal list" where
  \<comment> \<open>\<^verbatim>\<open>while (count < max_terminals && fscanf(fp, "%lf %lf %lf", ...) == 3)\<close> on the unread
      rest of the file, with \<open>count = length terminals\<close>\<close>
  "terminals_loop max_terminals s terminals =
     (if length terminals < max_terminals then
        (case scan (parse_format ''%lf %lf %lf'') s of
           ([VDbl px, VDbl py, VDbl b], r) \<Rightarrow>
             terminals_loop max_terminals r
               (terminals @ [\<lparr> term_x = px, term_y = py, battery = b, covered = 1,
                                terminal_id = int (length terminals) \<rparr>])
         | _ \<Rightarrow> terminals)
      else terminals)"
  by pat_completeness auto
termination
  by (relation "measure (\<lambda>(m, s, ts). m - length ts)") auto

declare terminals_loop.simps [simp del]

definition parse_terminals :: "string option \<Rightarrow> nat \<Rightarrow> int \<times> Terminal list" where
  "parse_terminals terminals_file max_terminals =
     (case terminals_file of
        None \<Rightarrow> (- 1, [])
      | Some content \<Rightarrow>
          (let terminals = terminals_loop max_terminals content []
           in (int (length terminals), terminals)))"

section \<open>Report renderer: the edges of the selected trees\<close>

text \<open>
  The SVG elements written for the selected trees are kept as values.  A read of the
  terminal table outside its parsed entries, and a read of a Steiner point that was never
  written, are failures of the model.
\<close>

datatype svg = Line int int int int | Circle int int

datatype error = TerminalOutOfBounds | UnwrittenSteinerPoint

definition terminal_at :: "Terminal list \<Rightarrow> int \<Rightarrow> error + Terminal" where
  \<comment> \<open>the read \<^verbatim>\<open>terminals[i]\<close>\<close>
  "terminal_at terminals i =
     (if 0 \<le> i \<and> i < int (length terminals) then Inr (terminals ! nat i)
      else Inl TerminalOutOfBounds)"

fun draw_junction :: "Terminal list \<Rightarrow> int \<Rightarrow> int \<times> int \<Rightarrow> int list \<Rightarrow> error + svg list" where
  \<comment> \<open>the lines from the Steiner point to each terminal of a tree\<close>
  "draw_junction terminals n s [] = Inr []"
| "draw_junction terminals n s (term_id # ids) =
     (if term_id \<ge> 0 \<and> term_id < n then
        (case terminal_at terminals term_id of
           Inl e \<Rightarrow> Inl e
         | Inr t \<Rightarrow>
             (case draw_junction terminals n s ids of
                Inl e \<Rightarrow> Inl e
              | Inr out \<Rightarrow>
                  Inr (Line (fst s) (snd s)
                         (fst (scale_coordinates (term_x t) (term_y t)))
                         (snd (scale_coordinates (term_x t) (term_y t))) # out)))
      else draw_junction terminals n s ids)"

fun draw_direct :: "Terminal list \<Rightarrow> int \<Rightarrow> int list \<Rightarrow> error + svg list" where
  \<comment> \<open>the lines between consecutive terminals of a tree without Steiner point\<close>
  "draw_direct terminals n (t1 # t2 # ids) =
     (if t1 \<ge> 0 \<and> t1 < n \<and> t2 \<ge> 0 \<and> t2 < n then
        (case terminal_at terminals t1 of
           Inl e \<Rightarrow> Inl e
         | Inr a \<Rightarrow>
             (case terminal_at terminals t2 of
                Inl e \<Rightarrow> Inl e
              | Inr b \<Rightarrow>
                  (case draw_direct terminals n (t2 # ids) of
                     Inl e \<Rightarrow> Inl e
                   | Inr out \<Rightarrow>
                       Inr (Line (fst (scale_coordinates (term_x a) (term_y a)))
                              (snd (scale_coordinates (term_x a) (term_y a)))
                              (fst (scale_coordinates (term_x b) (term_y b)))
                              (snd (scale_coordinates (term_x b) (term_y b))) # out))))
      else draw_direct terminals n (t2 # ids))"
| "draw_direct terminals n ids = Inr []"

definition draw_fst :: "Terminal list \<Rightarrow> int \<Rightarrow> FST \<Rightarrow> error + svg list" where
  \<comment> \<open>the body of the loop over \<^verbatim>\<open>selected_fsts\<close>\<close>
  "draw_fst terminals n f =
     (if num_steiner_points f > 0 then
        (case steiner_points f of
           [] \<Rightarrow> Inl UnwrittenSteinerPoint
         | p # ps \<Rightarrow>
             (case draw_junction terminals n (scale_coordinates (fst p) (snd p))
                     (take (nat (num_terminals f)) (terminal_ids f)) of
                Inl e \<Rightarrow> Inl e
              | Inr out \<Rightarrow>
                  Inr (out @ [Circle (fst (scale_coordinates (fst p) (snd p)))
                                     (snd (scale_coordinates (fst p) (snd p)))])))
      else draw_direct terminals n (take (nat (num_terminals f)) (terminal_ids f)))"

fun draw_selected_fsts :: "Terminal list \<Rightarrow> int \<Rightarrow> FST list \<Rightarrow> error + svg list" where
  "draw_selected_fsts terminals n [] = Inr []"
| "draw_selected_fsts terminals n (f # fs) =
     (case draw_fst terminals n f of
        Inl e \<Rightarrow> Inl e
      | Inr out \<Rightarrow>
          (case draw_selected_fsts terminals n fs of
             Inl e \<Rightarrow> Inl e
           | Inr outs \<Rightarrow> Inr (out @ outs)))"

definition in_table :: "int \<Rightarrow> int \<Rightarrow> bool" where
  "in_table n i \<longleftrightarrow> 0 \<le> i \<and> i < n"

definition edge_to :: "Terminal list \<Rightarrow> int \<times> int \<Rightarrow> int \<Rightarrow> svg" where
  "edge_to terminals s i =
     Line (fst s) (snd s)
       (fst (scale_coordinates (term_x (terminals ! nat i)) (term_y (terminals ! nat i))))
       (snd (scale_coordinates (term_x (terminals ! nat i)) (term_y (terminals ! nat i))))"

definition pair_edge :: "Terminal list \<Rightarrow> int \<times> int \<Rightarrow> svg" where
  "pair_edge terminals p =
     edge_to terminals
       (scale_coordinates (term_x (terminals ! nat (fst p))) (term_y (terminals ! nat (fst p))))
       (snd p)"

definition steiner_written :: "FST \<Rightarrow> bool" where
  \<comment> \<open>a tree whose Steiner point count is positive has its first Steiner point written\<close>
  "steiner_written f = (if num_steiner_points f = 0 then True else steiner_points f \<noteq> [])"

section \<open>Convergence-gap extractor\<close>

record gap_regs =
  best_bound :: double
  incumbent :: double
  gap :: double
  latest_best_z :: double
  latest_branch_z0 :: double
  latest_branch_z1 :: double

definition gap_regs_init :: gap_regs where
  "gap_regs_init =
     \<lparr> best_bound = NaN, incumbent = NaN, gap = NaN,
       latest_best_z = NaN, latest_branch_z0 = NaN, latest_branch_z1 = NaN \<rparr>"

definition gap_best_bound :: "string \<Rightarrow> gap_regs \<Rightarrow> gap_regs" where
  \<comment> \<open>pattern \<^verbatim>\<open>"Best bound = X, Best integer = Y"\<close>\<close>
  "gap_best_bound line r =
     (case sscanf line ''Best bound = %lf , Best integer = %lf'' of
        [VDbl bb, VDbl bi] \<Rightarrow>
          (let r1 = r\<lparr>best_bound := bb, incumbent := bi\<rparr>
           in if \<not> isnan (best_bound r1) \<and> \<not> isnan (incumbent r1)
                 \<and> d_neq (incumbent r1) (Finite 0)
              then r1\<lparr>gap := d_div (fabs (d_sub (incumbent r1) (best_bound r1)))
                                   (fabs (incumbent r1))\<rparr>
              else r1)
      | _ \<Rightarrow> r)"

definition gap_mip_gap :: "string \<Rightarrow> gap_regs \<Rightarrow> gap_regs" where
  \<comment> \<open>pattern \<^verbatim>\<open>"MIP gap = Z%"\<close>\<close>
  "gap_mip_gap line r =
     (case sscanf line ''MIP gap = %lf%%'' of
        [VDbl g] \<Rightarrow> r\<lparr>gap := d_div g (Finite 100)\<rparr>
      | _ \<Rightarrow> r)"

definition gap_mip_optimal :: "string \<Rightarrow> gap_regs \<Rightarrow> gap_regs" where
  \<comment> \<open>pattern \<^verbatim>\<open>"Solution status X: MIP optimal, tolerance"\<close>\<close>
  "gap_mip_optimal line r =
     (if strstr line ''MIP optimal'' \<noteq> None \<and> strstr line ''tolerance'' \<noteq> None then
        (case strstr line ''('' of
           None \<Rightarrow> r
         | Some gap_str \<Rightarrow>
             (case sscanf (drop 1 gap_str) ''%lf%%'' of
                [VDbl g] \<Rightarrow> r\<lparr>gap := d_div g (Finite 100)\<rparr>
              | _ \<Rightarrow> r))
      else r)"

definition gap_new_best :: "string \<Rightarrow> gap_regs \<Rightarrow> gap_regs" where
  \<comment> \<open>pattern \<^verbatim>\<open>"New best: x..., Z = value"\<close>\<close>
  "gap_new_best line r =
     (if strstr line ''New best:'' \<noteq> None \<and> strstr line ''Z ='' \<noteq> None then
        (case strstr line ''Z ='' of
           None \<Rightarrow> r
         | Some z_pos \<Rightarrow>
             (case sscanf z_pos ''Z = %lf'' of
                [VDbl z_val] \<Rightarrow> r\<lparr>latest_best_z := z_val\<rparr>
              | _ \<Rightarrow> r))
      else r)"

definition gap_best_branch :: "string \<Rightarrow> gap_regs \<Rightarrow> gap_regs" where
  \<comment> \<open>pattern \<^verbatim>\<open>"Best branch is x..., Z0 = val1, Z1 = val2"\<close>\<close>
  "gap_best_branch line r =
     (if strstr line ''Best branch is'' \<noteq> None \<and> strstr line ''Z0 ='' \<noteq> None
         \<and> strstr line ''Z1 ='' \<noteq> None then
        (case (strstr line ''Z0 ='', strstr line ''Z1 ='') of
           (Some z0_pos, Some z1_pos) \<Rightarrow>
             (case (sscanf z0_pos ''Z0 = %lf'', sscanf z1_pos ''Z1 = %lf'') of
                ([VDbl z0_val], [VDbl z1_val]) \<Rightarrow>
                  (let r1 = r\<lparr>latest_branch_z0 := z0_val, latest_branch_z1 := z1_val\<rparr>
                   in if \<not> isnan z0_val \<and> \<not> isnan z1_val then
                        (let r2 = r1\<lparr>incumbent := (if d_less z0_val z1_val
                                                      then z0_val else z1_val),
                                        best_bound := (if d_less z1_val z0_val
                                                       then z0_val else z1_val)\<rparr>
                         in if d_neq (incumbent r2) (Finite 0)
                            then r2\<lparr>gap := d_div (fabs (d_sub (best_bound r2) (incumbent r2)))
                                                 (fabs (incumbent r2))\<rparr>
                            else r2)
                      else r1)
              | _ \<Rightarrow> r)
         | _ \<Rightarrow> r)
      else r)"

definition gap_line :: "gap_regs \<Rightarrow> string \<Rightarrow> gap_regs" where
  \<comment> \<open>the body of the \<^verbatim>\<open>while (fgets(...))\<close> loop: the five patterns in their order\<close>
  "gap_line r line =
     gap_best_branch line (gap_new_best line (gap_mip_optimal line
       (gap_mip_gap line (gap_best_bound line r))))"

definition gap_estimate :: "gap_regs \<Rightarrow> gap_regs" where
  \<comment> \<open>the estimate after the loop\<close>
  "gap_estimate r =
     (if isnan (gap r) \<and> \<not> isnan (latest_best_z r) \<and> \<not> isnan (latest_branch_z0 r)
         \<and> \<not> isnan (latest_branch_z1 r) then
        (let r1 = r\<lparr>incumbent := latest_best_z r,
                      best_bound := (if d_less (latest_branch_z1 r) (latest_branch_z0 r)
                                     then latest_branch_z0 r else latest_branch_z1 r)\<rparr>
         in if d_neq (incumbent r1) (Finite 0)
            then r1\<lparr>gap := d_div (fabs (d_sub (best_bound r1) (incumbent r1)))
                                 (fabs (incumbent r1))\<rparr>
            else r1)
      else r)"

definition parse_final_mip_gap :: "string option \<Rightarrow> double" where
  "parse_final_mip_gap solution_file =
     (case solution_file of
        None \<Rightarrow> Finite (- 1)
      | Some content \<Rightarrow>
          gap (gap_estimate (foldl gap_line gap_regs_init (file_lines 4096 content))))"

definition gap_reported :: "double \<Rightarrow> bool" where
  \<comment> \<open>the test \<^verbatim>\<open>final_gap >= 0.0\<close> in \<^verbatim>\<open>main\<close>: the gap is printed, else
      \<^verbatim>\<open>Could not parse MIP gap from solution\<close>\<close>
  "gap_reported final_gap = d_ge final_gap (Finite 0)"

text \<open>A line on which none of the five patterns fires.\<close>

definition gap_no_pattern :: "string \<Rightarrow> bool" where
  "gap_no_pattern line \<longleftrightarrow>
     length (sscanf line ''Best bound = %lf , Best integer = %lf'') < 2
     \<and> sscanf line ''MIP gap = %lf%%'' = []
     \<and> (strstr line ''MIP optimal'' = None \<or> strstr line ''tolerance'' = None)
     \<and> (strstr line ''New best:'' = None \<or> strstr line ''Z ='' = None)
     \<and> (strstr line ''Best branch is'' = None \<or> strstr line ''Z0 ='' = None
          \<or> strstr line ''Z1 ='' = None)"

section \<open>The pipeline around the report\<close>

text \<open>
  What the program finds in its environment when the report is made: the contents of the
  three input files (\<open>None\<close> for a file that is missing or cannot be opened), whether the
  FST file exists, whether the report file can be created, and whether the optional Python
  generator is present and succeeds.  A run ends with an exit status; the lines written to
  \<^verbatim>\<open>stderr\<close> and the report, if one was written, are kept with it.
\<close>

record pipeline_env =
  env_terminals :: "string option"
  env_fsts_exists :: bool
  env_dump :: "string option"
  env_solution :: "string option"
  env_html_creatable :: bool
  env_python_ok :: bool

record report =
  rep_terminals :: "Terminal list"
  rep_universe :: "FST list"
  rep_edges :: "error + svg list"
  rep_gap :: double

record run =
  exit_status :: int
  stderr :: "string list"
  written :: "report option"

definition create_rich_visualization :: "pipeline_env \<Rightarrow> string list \<times> report option" where
  \<comment> \<open>the lines written to \<^verbatim>\<open>stderr\<close> (without the file name that follows the second
      message) and the report written; the function returns \<^verbatim>\<open>void\<close>\<close>
  "create_rich_visualization e =
     (let (num_terminals, terminals) = parse_terminals (env_terminals e) 50
      in if num_terminals \<le> 0 then ([''Error: Could not parse terminals file''], None)
         else
           (let coverage = snd (parse_solution_coverage (env_solution e) 50);
                terminals1 = map (\<lambda>(t, c). t\<lparr>covered := c\<rparr>) (zip terminals coverage)
            in if \<not> env_html_creatable e then ([''Error: Cannot create HTML file''], None)
               else ([], Some \<lparr> rep_terminals = terminals1,
                                rep_universe = universe_with_selection (env_dump e) (env_solution e),
                                rep_edges = draw_selected_fsts terminals1 num_terminals
                                              (snd (parse_fsts_from_solution (env_solution e) 50)),
                                rep_gap = parse_final_mip_gap (env_solution e) \<rparr>)))"

definition main_report_step :: "pipeline_env \<Rightarrow> run" where
  \<comment> \<open>step 4 of \<^verbatim>\<open>main\<close> in full-simulation mode, up to \<^verbatim>\<open>return 0\<close>\<close>
  "main_report_step e =
     (let (err, rep) = create_rich_visualization e
      in \<lparr> exit_status = 0, stderr = err, written = rep \<rparr>)"

definition main_visualization_only :: "pipeline_env \<Rightarrow> run" where
  \<comment> \<open>\<^verbatim>\<open>main\<close> in visualization-only mode with its four file arguments given:
      \<^verbatim>\<open>run_visualization_only\<close>, then \<^verbatim>\<open>return 0\<close>\<close>
  "main_visualization_only e =
     (if env_terminals e = None
      then \<lparr> exit_status = 1, stderr = [''Error: Terminals file not found''], written = None \<rparr>
      else if \<not> env_fsts_exists e
      then \<lparr> exit_status = 1, stderr = [''Error: FSTs file not found''], written = None \<rparr>
      else if env_solution e = None
      then \<lparr> exit_status = 1, stderr = [''Error: Solution file not found''], written = None \<rparr>
      else if env_python_ok e
      then \<lparr> exit_status = 0, stderr = [], written = None \<rparr>
      else (let (err, rep) = create_rich_visualization e
            in \<lparr> exit_status = 0, stderr = err, written = rep \<rparr>))"

section \<open>Properties of the rounding\<close>

lemma npow2_eq: "0 \<le> e \<Longrightarrow> npow2 e = 2 ^ nat e"
proof (induction e rule: npow2.induct)
  case (1 e)
  show ?case
  proof (cases "e \<le> 0")
    case True
    with "1.prems" have "e = 0" by simp
    then show ?thesis by (simp add: npow2.simps)
  next
    case False
    then have h: "0 \<le> e div 2" by simp
    have ih: "npow2 (e div 2) = 2 ^ nat (e div 2)"
    proof (cases "even e")
      case True
      then show ?thesis using "1.IH"(1)[OF False True h] by simp
    next
      case odd: False
      then show ?thesis using "1.IH"(2)[OF False odd h] by simp
    qed
    show ?thesis
    proof (cases "even e")
      case True
      then have "nat e = nat (e div 2) + nat (e div 2)" using False by (auto elim!: evenE)
      then show ?thesis using False True ih
        by (subst npow2.simps) (simp add: power_add sq_def)
    next
      case odd: False
      then have "nat e = Suc (nat (e div 2) + nat (e div 2))" using False by (auto elim!: oddE)
      then show ?thesis using False odd ih
        by (subst npow2.simps) (simp add: power_add sq_def)
    qed
  qed
qed

lemma pow2_powi: "pow2 e = 2 powi e"
  by (simp add: pow2_def npow2_eq power_int_def power_one_over)

lemma pow2_pos [simp]: "0 < pow2 e"
  by (simp add: pow2_powi)

lemma pow2_nonneg [simp]: "0 \<le> pow2 e"
  using pow2_pos[of e] by (rule less_imp_le)

lemma pow2_add: "pow2 (a + b) = pow2 a * pow2 b"
  by (simp add: pow2_powi power_int_add)

lemma pow2_mono: "a \<le> b \<Longrightarrow> pow2 a \<le> pow2 b"
  unfolding pow2_powi by (intro power_int_increasing) simp_all

lemma ilog2_nonneg: "0 \<le> ilog2 n"
  by (induction n rule: ilog2.induct) (subst ilog2.simps, simp)

lemma ilog2_bounds: "0 < n \<Longrightarrow> 2 ^ nat (ilog2 n) \<le> n \<and> n < 2 * 2 ^ nat (ilog2 n)"
proof (induction n rule: ilog2.induct)
  case (1 n)
  show ?case
  proof (cases "n < 2")
    case True
    with 1(2) have "n = 1" by simp
    then show ?thesis by (simp add: ilog2.simps)
  next
    case False
    then have "0 < n div 2" by simp
    with 1(1)[OF False] have ih: "2 ^ nat (ilog2 (n div 2)) \<le> n div 2"
        "n div 2 < 2 * 2 ^ nat (ilog2 (n div 2))"
      by simp_all
    have s: "ilog2 n = 1 + ilog2 (n div 2)" using False by (subst ilog2.simps) simp
    have n: "nat (1 + ilog2 (n div 2)) = Suc (nat (ilog2 (n div 2)))"
      using ilog2_nonneg[of "n div 2"] by simp
    have "2 * 2 ^ nat (ilog2 (n div 2)) \<le> n" using ih(1) by linarith
    moreover have "n < 2 * (2 * 2 ^ nat (ilog2 (n div 2)))" using ih(2) by linarith
    ultimately show ?thesis unfolding s n by simp
  qed
qed

lemma pow2_1: "pow2 1 = 2"
  by (simp add: pow2_powi)

lemma huge_val_eq: "huge_val = pow2 1024"
  unfolding huge_val_def by code_simp

lemma binade_bounds:
  assumes "0 < a"
  shows "pow2 (binade a) \<le> a \<and> a < pow2 (binade a + 1)"
proof -
  obtain p q where pq: "quotient_of a = (p, q)" by (cases "quotient_of a")
  have q: "0 < q" using quotient_of_denom_pos[OF pq] .
  have a: "a = of_int p / of_int q" using quotient_of_div[OF pq] .
  have p: "0 < p" using assms q a by (simp add: zero_less_divide_iff)
  define lp where "lp = ilog2 p"
  define lq where "lq = ilog2 q"
  have lp0: "0 \<le> lp" and lq0: "0 \<le> lq" by (simp_all add: lp_def lq_def ilog2_nonneg)
  have bp: "2 ^ nat lp \<le> p" "p < 2 * 2 ^ nat lp" using ilog2_bounds[OF p] by (simp_all add: lp_def)
  have bq: "2 ^ nat lq \<le> q" "q < 2 * 2 ^ nat lq" using ilog2_bounds[OF q] by (simp_all add: lq_def)
  have P: "pow2 lp \<le> of_int p" "of_int p < 2 * pow2 lp"
  proof -
    have "(of_int (2 ^ nat lp) :: rat) \<le> of_int p" using bp(1) by (simp only: of_int_le_iff)
    then show "pow2 lp \<le> of_int p" using lp0 by (simp add: pow2_def npow2_eq)
    have "(of_int p :: rat) < of_int (2 * 2 ^ nat lp)" using bp(2) by (simp only: of_int_less_iff)
    then show "of_int p < 2 * pow2 lp" using lp0 by (simp add: pow2_def npow2_eq)
  qed
  have Q: "pow2 lq \<le> of_int q" "of_int q < 2 * pow2 lq"
  proof -
    have "(of_int (2 ^ nat lq) :: rat) \<le> of_int q" using bq(1) by (simp only: of_int_le_iff)
    then show "pow2 lq \<le> of_int q" using lq0 by (simp add: pow2_def npow2_eq)
    have "(of_int q :: rat) < of_int (2 * 2 ^ nat lq)" using bq(2) by (simp only: of_int_less_iff)
    then show "of_int q < 2 * pow2 lq" using lq0 by (simp add: pow2_def npow2_eq)
  qed
  have qpos: "(0::rat) < of_int q" using q by simp
  have k1: "pow2 (lp - lq + 1) = 2 * pow2 (lp - lq)" by (simp add: pow2_add pow2_1)
  have kd: "pow2 (lp - lq) * pow2 lq = pow2 lp" using pow2_add[of "lp - lq" lq] by simp
  have km: "pow2 (lp - lq - 1) * 2 = pow2 (lp - lq)"
    using pow2_add[of "lp - lq - 1" 1] by (simp add: pow2_1)
  have up: "a < pow2 (lp - lq + 1)"
  proof -
    have "of_int p < 2 * pow2 lp" by (rule P(2))
    also have "\<dots> = 2 * pow2 (lp - lq) * pow2 lq" using kd by simp
    also have "\<dots> \<le> 2 * pow2 (lp - lq) * of_int q"
      using Q(1) by (intro mult_left_mono) simp_all
    finally have "of_int p / of_int q < 2 * pow2 (lp - lq)"
      using qpos by (simp add: pos_divide_less_eq)
    then show ?thesis by (simp add: a k1)
  qed
  have lo: "pow2 (lp - lq - 1) < a"
  proof -
    have "pow2 (lp - lq - 1) * of_int q < pow2 (lp - lq - 1) * (2 * pow2 lq)"
      using Q(2) by (intro mult_strict_left_mono) simp_all
    also have "\<dots> = pow2 lp" using km kd by (simp add: mult.assoc[symmetric])
    also have "\<dots> \<le> of_int p" by (rule P(1))
    finally have "pow2 (lp - lq - 1) < of_int p / of_int q"
      using qpos by (simp add: pos_less_divide_eq)
    then show ?thesis by (simp add: a)
  qed
  show ?thesis
  proof (cases "pow2 (lp - lq) \<le> a")
    case True
    then have "binade a = lp - lq" by (simp add: binade_def pq lp_def lq_def)
    then show ?thesis using True up by simp
  next
    case False
    then have "binade a = lp - lq - 1" by (simp add: binade_def pq lp_def lq_def)
    then show ?thesis using False lo by simp
  qed
qed

lemma pow2_strict_mono: "a < b \<Longrightarrow> pow2 a < pow2 b"
  unfolding pow2_powi by (intro power_int_strict_increasing) simp_all

lemma binade_mono:
  assumes "0 < a" "a \<le> b"
  shows "binade a \<le> binade b"
proof (rule ccontr)
  assume "\<not> binade a \<le> binade b"
  then have "binade b + 1 \<le> binade a" by simp
  then have "pow2 (binade b + 1) \<le> pow2 (binade a)" by (rule pow2_mono)
  moreover have "pow2 (binade a) \<le> a" using binade_bounds[OF assms(1)] by simp
  moreover have "b < pow2 (binade b + 1)" using binade_bounds[of b] assms by simp
  ultimately show False using assms(2) by linarith
qed

lemma round_even_floor: "\<lfloor>q\<rfloor> \<le> round_even q \<and> round_even q \<le> \<lfloor>q\<rfloor> + 1"
  by (simp add: round_even_def)

lemma round_even_int [simp]: "round_even (of_int n) = n"
  by (simp add: round_even_def)

lemma round_even_mono:
  assumes "q \<le> r"
  shows "round_even q \<le> round_even r"
proof (cases "\<lfloor>q\<rfloor> = \<lfloor>r\<rfloor>")
  case True
  then have "q - of_int \<lfloor>q\<rfloor> \<le> r - of_int \<lfloor>r\<rfloor>" using assms by simp
  then show ?thesis using True by (auto simp: round_even_def)
next
  case False
  have "\<lfloor>q\<rfloor> \<le> \<lfloor>r\<rfloor>" using assms by (rule floor_mono)
  with False have "\<lfloor>q\<rfloor> + 1 \<le> \<lfloor>r\<rfloor>" by simp
  then show ?thesis using round_even_floor[of q] round_even_floor[of r] by linarith
qed

lemma round_even_lower: "of_int n \<le> q \<Longrightarrow> n \<le> round_even q"
  using round_even_mono[of "of_int n" q] by simp

lemma round_even_upper: "q \<le> of_int n \<Longrightarrow> round_even q \<le> n"
  using round_even_mono[of q "of_int n"] by simp

lemma ulp_expo: "ulp a = pow2 (expo a - 52)"
  by (simp add: ulp_def expo_def)

lemma pow2_52: "pow2 52 = of_int 4503599627370496"
  by code_simp

lemma pow2_53: "pow2 53 = of_int 9007199254740992"
  by code_simp

lemma round_pos_nonneg: "0 \<le> a \<Longrightarrow> 0 \<le> round_pos a"
proof -
  assume "0 \<le> a"
  then have "of_int 0 \<le> a / ulp a" by (simp add: ulp_expo)
  then have "0 \<le> round_even (a / ulp a)" by (rule round_even_lower)
  then show ?thesis by (simp add: round_pos_def ulp_expo)
qed

lemma round_pos_upper:
  assumes "0 < a"
  shows "round_pos a \<le> pow2 (expo a + 1)"
proof -
  have "a < pow2 (binade a + 1)" using binade_bounds[OF assms] by simp
  also have "\<dots> \<le> pow2 (expo a + 1)" by (intro pow2_mono) (simp add: expo_def)
  finally have "a < pow2 (expo a + 1)" .
  moreover have "pow2 (expo a + 1) = pow2 53 * pow2 (expo a - 52)"
    using pow2_add[of 53 "expo a - 52"] by (simp add: add.commute)
  ultimately have "a / ulp a \<le> of_int 9007199254740992"
    by (simp add: ulp_expo pos_divide_le_eq pow2_53)
  then have "round_even (a / ulp a) \<le> 9007199254740992" by (rule round_even_upper)
  then have "(of_int (round_even (a / ulp a)) :: rat) \<le> of_int 9007199254740992"
    by (simp only: of_int_le_iff)
  then have "round_pos a \<le> pow2 53 * pow2 (expo a - 52)"
    unfolding round_pos_def ulp_expo pow2_53 by (intro mult_right_mono) simp_all
  then show ?thesis using pow2_add[of 53 "expo a - 52"] by (simp add: add.commute)
qed

lemma round_pos_lower:
  assumes "0 < a" "- 1022 \<le> binade a"
  shows "pow2 (expo a) \<le> round_pos a"
proof -
  have e: "expo a = binade a" using assms(2) by (simp add: expo_def)
  have "pow2 (expo a) \<le> a" using binade_bounds[OF assms(1)] e by simp
  moreover have "pow2 (expo a) = pow2 52 * pow2 (expo a - 52)"
    using pow2_add[of 52 "expo a - 52"] by simp
  ultimately have "of_int 4503599627370496 \<le> a / ulp a"
    by (simp add: ulp_expo pos_le_divide_eq pow2_52)
  then have "4503599627370496 \<le> round_even (a / ulp a)" by (rule round_even_lower)
  then have "(of_int 4503599627370496 :: rat) \<le> of_int (round_even (a / ulp a))"
    by (simp only: of_int_le_iff)
  then have "pow2 52 * pow2 (expo a - 52) \<le> round_pos a"
    unfolding round_pos_def ulp_expo pow2_52 by (intro mult_right_mono) simp_all
  then show ?thesis using pow2_add[of 52 "expo a - 52"] by simp
qed

lemma round_pos_mono:
  assumes "0 < a" "a \<le> b"
  shows "round_pos a \<le> round_pos b"
proof -
  have b: "0 < b" using assms by simp
  have le: "expo a \<le> expo b" using binade_mono[OF assms] by (simp add: expo_def)
  show ?thesis
  proof (cases "expo a = expo b")
    case True
    then have u: "ulp a = ulp b" by (simp add: ulp_expo)
    have "a / ulp b \<le> b / ulp b" using assms(2) by (simp add: ulp_expo divide_right_mono)
    then have "round_even (a / ulp b) \<le> round_even (b / ulp b)" by (rule round_even_mono)
    then have "(of_int (round_even (a / ulp b)) :: rat) \<le> of_int (round_even (b / ulp b))"
      by (simp only: of_int_le_iff)
    then show ?thesis unfolding round_pos_def u by (intro mult_right_mono) (simp_all add: ulp_expo)
  next
    case False
    with le have lt: "expo a + 1 \<le> expo b" by simp
    have "- 1022 \<le> expo a" by (simp add: expo_def)
    with lt have "- 1022 < expo b" by simp
    then have bb: "- 1022 \<le> binade b" by (simp add: expo_def)
    have "round_pos a \<le> pow2 (expo a + 1)" by (rule round_pos_upper[OF assms(1)])
    also have "\<dots> \<le> pow2 (expo b)" using lt by (rule pow2_mono)
    also have "\<dots> \<le> round_pos b" by (rule round_pos_lower[OF b bb])
    finally show ?thesis .
  qed
qed

lemma sround_mono:
  assumes "x \<le> y"
  shows "sround x \<le> sround y"
proof -
  consider "0 < x" | "x = 0" | "x < 0" "y < 0" | "x < 0" "y = 0" | "x < 0" "0 < y" by linarith
  then show ?thesis
  proof cases
    case 1
    then show ?thesis using assms by (simp add: sround_def round_pos_mono)
  next
    case 2
    then show ?thesis using assms round_pos_nonneg[of y] by (simp add: sround_def)
  next
    case 3
    then have "round_pos (- y) \<le> round_pos (- x)" using assms by (intro round_pos_mono) simp_all
    then show ?thesis using 3 by (simp add: sround_def)
  next
    case 4
    then show ?thesis using round_pos_nonneg[of "- x"] by (simp add: sround_def)
  next
    case 5
    then show ?thesis using round_pos_nonneg[of "- x"] round_pos_nonneg[of y]
      by (simp add: sround_def)
  qed
qed

lemma round64_between:
  assumes "l \<le> x" "x \<le> u" "sround l = l" "sround u = u" "- huge_val < l" "u < huge_val"
  shows "round64 x = Finite (sround x) \<and> l \<le> sround x \<and> sround x \<le> u"
proof -
  have 1: "l \<le> sround x" using sround_mono[OF assms(1)] assms(3) by simp
  have 2: "sround x \<le> u" using sround_mono[OF assms(2)] assms(4) by simp
  show ?thesis using 1 2 assms(5,6) by (simp add: round64_def)
qed

section \<open>Properties of the coordinate scaling\<close>

lemma wrap32_id: "- 2147483648 \<le> v \<Longrightarrow> v \<le> 2147483647 \<Longrightarrow> wrap32 v = v"
  by (simp add: wrap32_def)

lemma trunc0_mono: "a \<le> b \<Longrightarrow> trunc0 a \<le> trunc0 b"
proof -
  assume ab: "a \<le> b"
  consider "0 \<le> a" | "a < 0" "0 \<le> b" | "b < 0" by linarith
  then show ?thesis
  proof cases
    case 1
    with ab show ?thesis by (simp add: trunc0_def floor_mono)
  next
    case 2
    have "\<lceil>a\<rceil> \<le> 0" using 2(1) by (simp add: ceiling_le_iff)
    moreover have "0 \<le> \<lfloor>b\<rfloor>" using 2(2) by simp
    ultimately have "\<lceil>a\<rceil> \<le> \<lfloor>b\<rfloor>" by linarith
    then show ?thesis using 2 by (simp add: trunc0_def)
  next
    case 3
    with ab show ?thesis by (simp add: trunc0_def ceiling_mono)
  qed
qed

lemma trunc0_int [simp]: "trunc0 (of_int n) = n"
  by (simp add: trunc0_def)

lemma trunc0_between:
  assumes "of_int l \<le> a" "a \<le> of_int u"
  shows "l \<le> trunc0 a \<and> trunc0 a \<le> u"
  using trunc0_mono[OF assms(1)] trunc0_mono[OF assms(2)] by simp

lemma c_int_cast_in_range:
  assumes "- 2147483648 \<le> trunc0 a" "trunc0 a \<le> 2147483647"
  shows "c_int_cast (Finite a) = trunc0 a"
  using assms by (simp add: c_int_cast_def)

lemma sround_fix:
  "sround 0 = 0" "sround 1 = 1" "sround 500 = 500" "sround 700 = 700"
  "sround 3000001 = 3000001" "sround (- 3000001) = - 3000001"
  "sround 2147483000 = 2147483000" "sround (- 2147483000) = - 2147483000"
  by code_simp+

lemma pixel:
  assumes "- 2147483000 \<le> v" "v \<le> 2147483000"
  shows "wrap32 (50 + c_int_cast (round64 v)) = 50 + trunc0 (sround v)"
proof -
  have r: "round64 v = Finite (sround v) \<and> - 2147483000 \<le> sround v \<and> sround v \<le> 2147483000"
    using assms by (intro round64_between) (simp_all add: sround_fix huge_val_def)
  then have "of_int (- 2147483000) \<le> sround v" "sround v \<le> of_int 2147483000" by simp_all
  then have t: "- 2147483000 \<le> trunc0 (sround v) \<and> trunc0 (sround v) \<le> 2147483000"
    by (rule trunc0_between)
  then have "c_int_cast (Finite (sround v)) = trunc0 (sround v)"
    by (intro c_int_cast_in_range) simp_all
  then show ?thesis using r t by (simp add: wrap32_id)
qed

lemma scale_x_finite:
  "fst (scale_coordinates (Finite a) y) = wrap32 (50 + c_int_cast (round64 (a * 700)))"
  by (simp add: scale_coordinates_def d_mul_def)

lemma scale_y_finite:
  "snd (scale_coordinates x (Finite b)) =
     wrap32 (50 + c_int_cast (d_mul (round64 (1 - b)) (Finite 500)))"
  by (simp add: scale_coordinates_def d_sub_def)

lemma scale_x_mono:
  assumes "- 3000000 \<le> a" "a \<le> a'" "a' \<le> 3000000"
  shows "fst (scale_coordinates (Finite a) y) \<le> fst (scale_coordinates (Finite a') y)"
proof -
  have 1: "- 2147483000 \<le> a * 700" "a * 700 \<le> 2147483000" using assms by simp_all
  have 2: "- 2147483000 \<le> a' * 700" "a' * 700 \<le> 2147483000" using assms by simp_all
  have "a * 700 \<le> a' * 700" using assms(2) by simp
  then have "trunc0 (sround (a * 700)) \<le> trunc0 (sround (a' * 700))"
    by (intro trunc0_mono sround_mono)
  then show ?thesis unfolding scale_x_finite pixel[OF 1] pixel[OF 2] by simp
qed

lemma one_minus:
  assumes "- 3000000 \<le> b" "b \<le> 3000000"
  shows "round64 (1 - b) = Finite (sround (1 - b))"
    and "- 3000001 \<le> sround (1 - b)" and "sround (1 - b) \<le> 3000001"
proof -
  have "round64 (1 - b) = Finite (sround (1 - b)) \<and> - 3000001 \<le> sround (1 - b)
        \<and> sround (1 - b) \<le> 3000001"
    using assms by (intro round64_between) (simp_all add: sround_fix huge_val_def)
  then show "round64 (1 - b) = Finite (sround (1 - b))"
    and "- 3000001 \<le> sround (1 - b)" and "sround (1 - b) \<le> 3000001" by simp_all
qed

lemma scale_y_eq:
  assumes "- 3000000 \<le> b" "b \<le> 3000000"
  shows "snd (scale_coordinates x (Finite b)) = 50 + trunc0 (sround (sround (1 - b) * 500))"
proof -
  have v: "- 2147483000 \<le> sround (1 - b) * 500" "sround (1 - b) * 500 \<le> 2147483000"
    using one_minus(2,3)[OF assms] by simp_all
  show ?thesis unfolding scale_y_finite one_minus(1)[OF assms]
    using pixel[OF v] by (simp add: d_mul_def)
qed

lemma scale_y_mono:
  assumes "- 3000000 \<le> b" "b \<le> b'" "b' \<le> 3000000"
  shows "snd (scale_coordinates x (Finite b')) \<le> snd (scale_coordinates x (Finite b))"
proof -
  have b: "- 3000000 \<le> b" "b \<le> 3000000" using assms by simp_all
  have b': "- 3000000 \<le> b'" "b' \<le> 3000000" using assms by simp_all
  have "1 - b' \<le> 1 - b" using assms(2) by simp
  then have "sround (1 - b') \<le> sround (1 - b)" by (rule sround_mono)
  then have "sround (1 - b') * 500 \<le> sround (1 - b) * 500" by simp
  then have "trunc0 (sround (sround (1 - b') * 500)) \<le> trunc0 (sround (sround (1 - b) * 500))"
    by (intro trunc0_mono sround_mono)
  then show ?thesis unfolding scale_y_eq[OF b] scale_y_eq[OF b'] by simp
qed

lemma scale_x_unit:
  assumes "0 \<le> a" "a \<le> 1"
  shows "50 \<le> fst (scale_coordinates (Finite a) y) \<and> fst (scale_coordinates (Finite a) y) \<le> 750"
proof -
  have v: "- 2147483000 \<le> a * 700" "a * 700 \<le> 2147483000" using assms by simp_all
  have "round64 (a * 700) = Finite (sround (a * 700)) \<and> 0 \<le> sround (a * 700)
        \<and> sround (a * 700) \<le> 700"
    using assms by (intro round64_between) (simp_all add: sround_fix huge_val_def)
  then have "of_int 0 \<le> sround (a * 700)" "sround (a * 700) \<le> of_int 700" by simp_all
  then have "0 \<le> trunc0 (sround (a * 700)) \<and> trunc0 (sround (a * 700)) \<le> 700"
    by (rule trunc0_between)
  then show ?thesis unfolding scale_x_finite pixel[OF v] by simp
qed

lemma scale_y_unit:
  assumes "0 \<le> b" "b \<le> 1"
  shows "50 \<le> snd (scale_coordinates x (Finite b)) \<and> snd (scale_coordinates x (Finite b)) \<le> 550"
proof -
  have r: "- 3000000 \<le> b" "b \<le> 3000000" using assms by simp_all
  have "round64 (1 - b) = Finite (sround (1 - b)) \<and> 0 \<le> sround (1 - b) \<and> sround (1 - b) \<le> 1"
    using assms by (intro round64_between) (simp_all add: sround_fix huge_val_def)
  then have s: "0 \<le> sround (1 - b) * 500" "sround (1 - b) * 500 \<le> 500" by simp_all
  have "round64 (sround (1 - b) * 500) = Finite (sround (sround (1 - b) * 500))
        \<and> 0 \<le> sround (sround (1 - b) * 500) \<and> sround (sround (1 - b) * 500) \<le> 500"
    using s by (intro round64_between) (simp_all add: sround_fix huge_val_def)
  then have "of_int 0 \<le> sround (sround (1 - b) * 500)"
      "sround (sround (1 - b) * 500) \<le> of_int 500" by simp_all
  then have "0 \<le> trunc0 (sround (sround (1 - b) * 500))
             \<and> trunc0 (sround (sround (1 - b) * 500)) \<le> 500"
    by (rule trunc0_between)
  then show ?thesis unfolding scale_y_eq[OF r] by simp
qed
text \<open>
  C3 (as the specification states it, refuted).  The claim asks that a strictly larger \<open>x\<close>
  gives a strictly larger scaled x.  The scaled coordinate is an \<open>int\<close>: the doubles \<open>0.1\<close>
  and \<open>0.1001\<close> both land on pixel column 120.
\<close>

theorem scale_coordinates_not_strict:
  "d_less (round64 (1 / 10)) (round64 (1001 / 10000))
   \<and> fst (scale_coordinates (round64 (1 / 10)) (round64 (1 / 2))) = 120
   \<and> fst (scale_coordinates (round64 (1001 / 10000)) (round64 (1 / 2))) = 120
   \<and> \<not> fst (scale_coordinates (round64 (1 / 10)) (round64 (1 / 2)))
        < fst (scale_coordinates (round64 (1001 / 10000)) (round64 (1 / 2)))"
  by code_simp

text \<open>
  C3 (amended).  The scaling is the affine map of the unit square onto the canvas, computed
  in \<open>double\<close> and cut to whole pixels.  For finite coordinates of magnitude at most
  \<open>3000000\<close> (where the pixel fits an \<open>int\<close>) it is monotone, but not strictly: a larger
  \<open>x\<close> never gives a smaller scaled x, a larger \<open>y\<close> never gives a larger scaled y (the
  axis is flipped).  For \<open>x\<close>, \<open>y\<close> in \<open>[0,1]\<close> the scaled x lies in \<open>[50, 750]\<close> and the
  scaled y in \<open>[50, 550]\<close>.  The point \<open>(0.9, 0.9)\<close> is scaled to \<open>(680, 99)\<close>.  Far
  outside the canvas the order is lost: \<open>x = 1e10\<close> is scaled to \<open>-2147483598\<close>.
\<close>

theorem scale_coordinates_monotone_bounded:
  "(- 3000000 \<le> a \<and> a \<le> a' \<and> a' \<le> 3000000 \<longrightarrow>
      fst (scale_coordinates (Finite a) y) \<le> fst (scale_coordinates (Finite a') y))
   \<and> (- 3000000 \<le> b \<and> b \<le> b' \<and> b' \<le> 3000000 \<longrightarrow>
      snd (scale_coordinates x (Finite b')) \<le> snd (scale_coordinates x (Finite b)))
   \<and> (0 \<le> a \<and> a \<le> 1 \<longrightarrow>
        50 \<le> fst (scale_coordinates (Finite a) y) \<and> fst (scale_coordinates (Finite a) y) \<le> 750)
   \<and> (0 \<le> b \<and> b \<le> 1 \<longrightarrow>
        50 \<le> snd (scale_coordinates x (Finite b)) \<and> snd (scale_coordinates x (Finite b)) \<le> 550)
   \<and> scale_coordinates (round64 (9 / 10)) (round64 (9 / 10)) = (680, 99)
   \<and> fst (scale_coordinates (round64 10000000000) (round64 (9 / 10))) = - 2147483598"
proof (intro conjI impI)
  assume "- 3000000 \<le> a \<and> a \<le> a' \<and> a' \<le> 3000000"
  then show "fst (scale_coordinates (Finite a) y) \<le> fst (scale_coordinates (Finite a') y)"
    using scale_x_mono by blast
next
  assume "- 3000000 \<le> b \<and> b \<le> b' \<and> b' \<le> 3000000"
  then show "snd (scale_coordinates x (Finite b')) \<le> snd (scale_coordinates x (Finite b))"
    using scale_y_mono by blast
next
  assume h: "0 \<le> a \<and> a \<le> 1"
  then show "50 \<le> fst (scale_coordinates (Finite a) y)" using scale_x_unit by blast
  from h show "fst (scale_coordinates (Finite a) y) \<le> 750" using scale_x_unit by blast
next
  assume h: "0 \<le> b \<and> b \<le> 1"
  then show "50 \<le> snd (scale_coordinates x (Finite b))" using scale_y_unit by blast
  from h show "snd (scale_coordinates x (Finite b)) \<le> 550" using scale_y_unit by blast
next
  show "scale_coordinates (round64 (9 / 10)) (round64 (9 / 10)) = (680, 99)"
    by code_simp
  show "fst (scale_coordinates (round64 10000000000) (round64 (9 / 10))) = - 2147483598"
    by code_simp
qed

theorem scale_coordinates_monotone_bounded_witness:
  "(- 3000000 :: rat) \<le> 1 / 4 \<and> (1 / 4 :: rat) \<le> 3 / 4 \<and> (3 / 4 :: rat) \<le> 3000000
   \<and> fst (scale_coordinates (Finite (1 / 4)) (Finite (1 / 4)))
        \<le> fst (scale_coordinates (Finite (3 / 4)) (Finite (1 / 4)))
   \<and> snd (scale_coordinates (Finite (1 / 4)) (Finite (3 / 4)))
        \<le> snd (scale_coordinates (Finite (1 / 4)) (Finite (1 / 4)))
   \<and> (0 :: rat) \<le> 1 / 4 \<and> (1 / 4 :: rat) \<le> 1
   \<and> 50 \<le> fst (scale_coordinates (Finite (1 / 4)) (Finite (1 / 4)))
   \<and> fst (scale_coordinates (Finite (1 / 4)) (Finite (1 / 4))) \<le> 750
   \<and> 50 \<le> snd (scale_coordinates (Finite (1 / 4)) (Finite (1 / 4)))
   \<and> snd (scale_coordinates (Finite (1 / 4)) (Finite (1 / 4))) \<le> 550"
  using scale_coordinates_monotone_bounded
          [of "1 / 4" "3 / 4" "Finite (1 / 4)" "1 / 4" "3 / 4" "Finite (1 / 4)"]
  by simp

section \<open>Properties of the coverage extractor\<close>

lemma coverage_line_length [simp]: "length (coverage_line n a l) = length a"
  by (simp add: coverage_line_def split: list.splits sval.splits)


lemma coverage_fold_length [simp]: "length (foldl (coverage_line n) a ls) = length a"
  by (induction ls arbitrary: a) simp_all




section \<open>Properties of the tree dump parser\<close>













section \<open>Properties of the selection marking\<close>

lemma mark_if_listed_selected:
  "selected (mark_if_listed f ids) = (if fst_id f \<in> set ids then 1 else selected f)"
  by (induction ids) auto

lemma mark_if_listed_fst_id: "fst_id (mark_if_listed f ids) = fst_id f"
  by (induction ids) auto

text \<open>
  C8.  For every dump and every solver log: the marked universe has the trees of the dump,
  in order and with their ids, and the selected flag of a tree is 1 if its id is in the
  list returned by \<^verbatim>\<open>parse_selected_fst_ids\<close> for the log, and 0 otherwise.
\<close>

theorem selected_flag_iff_listed:
  "map fst_id (universe_with_selection fsts_dump_file solution_file)
     = map fst_id (snd (parse_fsts_from_dump fsts_dump_file 100))
   \<and> map selected (universe_with_selection fsts_dump_file solution_file)
     = map (\<lambda>f. if fst_id f \<in> set (snd (parse_selected_fst_ids solution_file 50)) then 1 else 0)
         (snd (parse_fsts_from_dump fsts_dump_file 100))"
  by (simp add: universe_with_selection_def mark_selected_def Let_def
        mark_if_listed_selected mark_if_listed_fst_id)

section \<open>Properties of the selected-tree parser\<close>

lemma scan_double_percent: "scan_double (CHR ''%'' # r) = None"
  by (simp add: scan_double_def scan_sign_def isdigit_def tolower_def dec_float_val_def)

lemma header_starts_percent:
  assumes "sscanf t ''%% fs%d:'' = [VInt fid]"
  shows "\<exists>r. skip_ws t = CHR ''%'' # r"
  using assms by (auto simp: sscanf_def split: list.splits if_splits)

lemma header_not_steiner:
  assumes "solution_header l = Some h"
  shows "steiner_line (dropWhile isspace l) = None"
proof -
  let ?t = "dropWhile isspace l"
  from assms obtain fid where "sscanf ?t ''%% fs%d:'' = [VInt fid]"
    by (auto simp: solution_header_def Let_def split: if_splits list.splits sval.splits)
  then obtain r where "skip_ws ?t = CHR ''%'' # r" using header_starts_percent by blast
  then have "sscanf ?t ''%lf %lf %d %c S'' = []"
    by (simp add: sscanf_def scan_double_percent)
  then show ?thesis by (simp add: steiner_line_def)
qed

lemma header_has_marker:
  assumes "solution_header l = Some h"
  shows "strstr (dropWhile isspace l) ''% fs'' \<noteq> None"
  using assms by (auto simp: solution_header_def Let_def split: if_splits)

lemma lookahead_keeps_headers:
  "List.map_filter solution_header (snd (steiner_lookahead f ls)) = List.map_filter solution_header ls"
proof (induction f ls rule: steiner_lookahead.induct)
  case (1 f)
  then show ?case by simp
next
  case (2 f line rest)
  show ?case
  proof (cases "solution_header line")
    case None
    then show ?thesis using 2 by (auto simp: List.map_filter_simps split: option.splits)
  next
    case (Some h)
    then show ?thesis using header_not_steiner[OF Some] header_has_marker[OF Some]
      by (auto simp: List.map_filter_simps)
  qed
qed

lemma lookahead_keeps_id:
  "fst_id (fst (steiner_lookahead f ls)) = fst_id f \<and>
   terminal_ids (fst (steiner_lookahead f ls)) = terminal_ids f"
  by (induction f ls rule: steiner_lookahead.induct) (auto split: option.splits)

lemma solution_loop_headers:
  "map (\<lambda>f. (fst_id f, terminal_ids f)) (solution_loop m ls fsts) =
     map (\<lambda>f. (fst_id f, terminal_ids f)) fsts
       @ take (m - length fsts) (List.map_filter solution_header ls)"
proof (induction m ls fsts rule: solution_loop.induct)
  case (1 max_fsts fsts)
  then show ?case by (simp add: solution_loop.simps List.map_filter_simps)
next
  case (2 max_fsts line rest fsts)
  show ?case
  proof (cases "length fsts < max_fsts")
    case False
    then show ?thesis by (simp add: solution_loop.simps)
  next
    case True
    show ?thesis
    proof (cases "solution_header line")
      case None
      then show ?thesis using True 2(1)[OF True None]
        by (simp add: solution_loop.simps List.map_filter_simps)
    next
      case (Some h)
      obtain fid ids where h: "h = (fid, ids)" by (cases h)
      from True obtain k where k: "max_fsts - length fsts = Suc k"
        by (cases "max_fsts - length fsts") auto
      then have k': "max_fsts - Suc (length fsts) = k" by simp
      show ?thesis
        using True Some h 2(2)[OF True Some[unfolded h] refl]
        by (simp add: solution_loop.simps List.map_filter_simps lookahead_keeps_headers
              lookahead_keeps_id solution_fst_def k k')
    qed
  qed
qed

text \<open>
  C4 (as the specification states it, refuted).  The claim has the adjacent header recorded
  for every log.  The outer loop also stops when the table is full: in a log of 51 header
  lines, read with the capacity of 50 that \<^verbatim>\<open>create_rich_visualization\<close> passes, the
  lookahead of the 50th tree rewinds to the 51st header, the outer loop reads that line and
  leaves without recording it.
\<close>

theorem solution_parser_full_table_drops_header:
  "solution_header ''% fs2: 0 1\<newline>'' = Some (2, [0, 1])
   \<and> 2 \<notin> fst_id ` set (snd (parse_fsts_from_solution
        (Some (concat (replicate 50 ''% fs1: 0 1\<newline>'') @ ''% fs2: 0 1\<newline>'')) 50))"
  by code_simp

text \<open>
  C4 (amended).  The log \<^verbatim>\<open>% fs2: 0 1 2\<close> followed by \<^verbatim>\<open>0.5 0.5 1 T S\<close> gives one tree with
  id 2, terminals \<open>[0, 1, 2]\<close> and the single Steiner point \<open>(0.5, 0.5)\<close>.  For every log,
  when the lookahead reads a line that is not a Steiner-point line and holds the tree-header
  marker (or \<^verbatim>\<open>EndPlot\<close>), it stops and the file position is put back to the start of
  that line.  The trees returned are, in order, those of all the header lines of the log
  that carry at least one terminal index, up to the capacity of the table: within the
  capacity no such header line is skipped.
\<close>

theorem solution_parser_rewind:
  "parse_fsts_from_solution (Some ''% fs2: 0 1 2\<newline>0.5 0.5 1 T S\<newline>'') 50 =
     (1, [\<lparr> selected = 1, num_terminals = 3, terminal_ids = [0, 1, 2], num_steiner_points = 1,
             steiner_points = [(Finite (1 / 2), Finite (1 / 2))], cost = Finite 0,
             fst_id = 2 \<rparr>])
   \<and> (steiner_line (dropWhile isspace line) = None
        \<and> (strstr (dropWhile isspace line) ''% fs'' \<noteq> None
             \<or> strstr (dropWhile isspace line) ''EndPlot'' \<noteq> None)
       \<longrightarrow> steiner_lookahead f (line # rest) = (f, line # rest))
   \<and> map (\<lambda>t. (fst_id t, terminal_ids t)) (snd (parse_fsts_from_solution (Some content) max_fsts))
       = take max_fsts (List.map_filter solution_header (file_lines 1024 content))"
proof (intro conjI impI)
  show "parse_fsts_from_solution (Some ''% fs2: 0 1 2\<newline>0.5 0.5 1 T S\<newline>'') 50 =
     (1, [\<lparr> selected = 1, num_terminals = 3, terminal_ids = [0, 1, 2], num_steiner_points = 1,
             steiner_points = [(Finite (1 / 2), Finite (1 / 2))], cost = Finite 0,
             fst_id = 2 \<rparr>])"
    by code_simp
  show "map (\<lambda>t. (fst_id t, terminal_ids t)) (snd (parse_fsts_from_solution (Some content) max_fsts))
       = take max_fsts (List.map_filter solution_header (file_lines 1024 content))"
    using solution_loop_headers[of max_fsts "file_lines 1024 content" "[]"]
    by (simp add: parse_fsts_from_solution_def Let_def)
next
  assume "steiner_line (dropWhile isspace line) = None
        \<and> (strstr (dropWhile isspace line) ''% fs'' \<noteq> None
             \<or> strstr (dropWhile isspace line) ''EndPlot'' \<noteq> None)"
  then show "steiner_lookahead f (line # rest) = (f, line # rest)"
    by auto
qed

theorem solution_parser_rewind_witness:
  "steiner_line (dropWhile isspace ''% fs3: 4 5\<newline>'') = None
   \<and> strstr (dropWhile isspace ''% fs3: 4 5\<newline>'') ''% fs'' \<noteq> None
   \<and> steiner_lookahead (solution_fst 2 [0, 1, 2]) [''% fs3: 4 5\<newline>'', ''0.1 0.2 4 T S\<newline>'']
       = (solution_fst 2 [0, 1, 2], [''% fs3: 4 5\<newline>'', ''0.1 0.2 4 T S\<newline>''])
   \<and> map (\<lambda>t. (fst_id t, terminal_ids t))
        (snd (parse_fsts_from_solution
           (Some ''% fs2: 0 1 2\<newline>% fs3: 4 5\<newline>0.1 0.2 4 T S\<newline>'') 50))
       = [(2, [0, 1, 2]), (3, [4, 5])]"
proof -
  have e1: "steiner_line (dropWhile isspace ''% fs3: 4 5\<newline>'') = None"
    by code_simp
  have e2: "strstr (dropWhile isspace ''% fs3: 4 5\<newline>'') ''% fs'' \<noteq> None"
    by code_simp
  have e3: "take 50 (List.map_filter solution_header
              (file_lines 1024 ''% fs2: 0 1 2\<newline>% fs3: 4 5\<newline>0.1 0.2 4 T S\<newline>''))
            = [(2, [0, 1, 2]), (3, [4, 5])]"
    by code_simp
  show ?thesis
    using solution_parser_rewind [of "''% fs3: 4 5\<newline>''" "solution_fst 2 [0, 1, 2]"
      "[''0.1 0.2 4 T S\<newline>'']" "''% fs2: 0 1 2\<newline>% fs3: 4 5\<newline>0.1 0.2 4 T S\<newline>''" 50]
      e1 e2 e3
    by simp
qed

section \<open>Properties of the renderer\<close>

lemma terminal_at_in_table:
  "in_table (int (length terminals)) i \<Longrightarrow> terminal_at terminals i = Inr (terminals ! nat i)"
  by (simp add: terminal_at_def in_table_def)

lemma draw_junction_eq:
  "draw_junction terminals (int (length terminals)) s ids =
     Inr (map (edge_to terminals s) (filter (in_table (int (length terminals))) ids))"
proof (induction ids)
  case Nil
  then show ?case by simp
next
  case (Cons i ids)
  show ?case
  proof (cases "in_table (int (length terminals)) i")
    case True
    then have "0 \<le> i \<and> i < int (length terminals)" by (simp add: in_table_def)
    then show ?thesis using Cons True
      by (simp add: terminal_at_in_table edge_to_def)
  next
    case False
    then have "\<not> (0 \<le> i \<and> i < int (length terminals))" by (simp add: in_table_def)
    then show ?thesis using Cons False by auto
  qed
qed

lemma draw_direct_eq:
  "draw_direct terminals (int (length terminals)) ids =
     Inr (map (pair_edge terminals)
            (filter (\<lambda>p. in_table (int (length terminals)) (fst p)
                          \<and> in_table (int (length terminals)) (snd p))
               (zip ids (tl ids))))"
proof (induction terminals "int (length terminals)" ids rule: draw_direct.induct)
  case (1 terminals t1 t2 ids)
  show ?case
  proof (cases "in_table (int (length terminals)) t1 \<and> in_table (int (length terminals)) t2")
    case True
    then have g: "t1 \<ge> 0 \<and> t1 < int (length terminals) \<and> t2 \<ge> 0 \<and> t2 < int (length terminals)"
      by (simp add: in_table_def)
    show ?thesis using True g 1(1)[OF g]
      by (simp add: terminal_at_in_table pair_edge_def edge_to_def)
  next
    case False
    then have g: "\<not> (t1 \<ge> 0 \<and> t1 < int (length terminals) \<and> t2 \<ge> 0 \<and> t2 < int (length terminals))"
      by (auto simp: in_table_def)
    show ?thesis using False g 1(2)[OF g] by auto
  qed
qed simp_all

lemma draw_fst_in_bounds:
  "draw_fst terminals (int (length terminals)) f \<noteq> Inl TerminalOutOfBounds"
  by (simp add: draw_fst_def draw_junction_eq draw_direct_eq split: list.splits)

lemma draw_selected_in_bounds:
  "draw_selected_fsts terminals (int (length terminals)) fsts \<noteq> Inl TerminalOutOfBounds"
proof (induction fsts)
  case Nil
  then show ?case by simp
next
  case (Cons f fsts)
  then show ?case using draw_fst_in_bounds[of terminals f]
    by (auto split: sum.splits)
qed

lemma lookahead_written:
  "steiner_written f \<Longrightarrow> steiner_written (fst (steiner_lookahead f ls))"
  by (induction f ls rule: steiner_lookahead.induct)
     (auto split: option.splits simp: steiner_written_def)

lemma solution_loop_written:
  "list_all steiner_written fsts \<Longrightarrow> list_all steiner_written (solution_loop m ls fsts)"
proof (induction m ls fsts rule: solution_loop.induct)
  case (1 max_fsts fsts)
  then show ?case by (simp add: solution_loop.simps)
next
  case (2 max_fsts line rest fsts)
  show ?case
  proof (cases "length fsts < max_fsts")
    case False
    then show ?thesis using 2(3) by (simp add: solution_loop.simps)
  next
    case True
    show ?thesis
    proof (cases "solution_header line")
      case None
      then show ?thesis using True 2(1)[OF True None] 2(3) by (simp add: solution_loop.simps)
    next
      case (Some h)
      obtain fid ids where h: "h = (fid, ids)" by (cases h)
      have "steiner_written (fst (steiner_lookahead (solution_fst fid ids) rest))"
        by (rule lookahead_written) (simp add: steiner_written_def solution_fst_def)
      then show ?thesis
        using True Some h 2(2)[OF True Some[unfolded h] refl] 2(3)
        by (simp add: solution_loop.simps)
    qed
  qed
qed

lemma draw_written_ok:
  "list_all steiner_written fsts \<Longrightarrow>
   \<exists>out. draw_selected_fsts terminals (int (length terminals)) fsts = Inr out"
proof (induction fsts)
  case Nil
  then show ?case by simp
next
  case (Cons f fsts)
  then obtain outs where o: "draw_selected_fsts terminals (int (length terminals)) fsts = Inr outs"
    by auto
  from Cons.prems have "steiner_written f" by simp
  then have "\<exists>out. draw_fst terminals (int (length terminals)) f = Inr out"
    by (auto simp: draw_fst_def draw_junction_eq draw_direct_eq steiner_written_def split: list.splits)
  then show ?case using o by auto
qed

text \<open>
  C10.  With \<open>n\<close> the number of parsed terminals, drawing the selected trees never reads
  the terminal table outside \<open>[0, n)\<close>, whatever terminal ids the trees carry.  A tree with
  a Steiner point gets a line for exactly those of its terminal ids that lie in \<open>[0, n)\<close>;
  a tree without one gets a line for exactly those consecutive pairs of which both ids lie
  in \<open>[0, n)\<close>.  For the trees that the selected-tree parser returns, the drawing fails in
  no other way either.  With two terminals, the tree \<open>[0, 7, 1]\<close> is drawn with the lines to
  terminals 0 and 1 only.
\<close>

theorem draw_never_out_of_bounds:
  "draw_selected_fsts terminals (int (length terminals)) fsts \<noteq> Inl TerminalOutOfBounds
   \<and> draw_junction terminals (int (length terminals)) s ids =
       Inr (map (edge_to terminals s) (filter (in_table (int (length terminals))) ids))
   \<and> draw_direct terminals (int (length terminals)) ids =
       Inr (map (pair_edge terminals)
              (filter (\<lambda>p. in_table (int (length terminals)) (fst p)
                            \<and> in_table (int (length terminals)) (snd p))
                 (zip ids (tl ids))))
   \<and> (\<exists>out. draw_selected_fsts terminals (int (length terminals))
                (snd (parse_fsts_from_solution solution_file 50)) = Inr out)
   \<and> draw_selected_fsts
        [\<lparr> term_x = Finite 0, term_y = Finite 0, battery = Finite 50, covered = 1,
            terminal_id = 0 \<rparr>,
         \<lparr> term_x = Finite 1, term_y = Finite 1, battery = Finite 50, covered = 1,
            terminal_id = 1 \<rparr>] 2
        [\<lparr> selected = 1, num_terminals = 3, terminal_ids = [0, 7, 1], num_steiner_points = 1,
            steiner_points = [(Finite (1 / 2), Finite (1 / 2))], cost = Finite 0,
            fst_id = 2 \<rparr>]
       = Inr [Line 400 300 50 550, Line 400 300 750 50, Circle 400 300]"
proof (intro conjI)
  show "draw_selected_fsts terminals (int (length terminals)) fsts \<noteq> Inl TerminalOutOfBounds"
    by (rule draw_selected_in_bounds)
  show "draw_junction terminals (int (length terminals)) s ids =
       Inr (map (edge_to terminals s) (filter (in_table (int (length terminals))) ids))"
    by (rule draw_junction_eq)
  show "draw_direct terminals (int (length terminals)) ids =
       Inr (map (pair_edge terminals)
              (filter (\<lambda>p. in_table (int (length terminals)) (fst p)
                            \<and> in_table (int (length terminals)) (snd p))
                 (zip ids (tl ids))))"
    by (rule draw_direct_eq)
  have "list_all steiner_written (snd (parse_fsts_from_solution solution_file 50))"
    using solution_loop_written[of "[]"]
    by (simp add: parse_fsts_from_solution_def Let_def split: option.splits)
  then show "\<exists>out. draw_selected_fsts terminals (int (length terminals))
                (snd (parse_fsts_from_solution solution_file 50)) = Inr out"
    by (rule draw_written_ok)
  show "draw_selected_fsts
        [\<lparr> term_x = Finite 0, term_y = Finite 0, battery = Finite 50, covered = 1,
            terminal_id = 0 \<rparr>,
         \<lparr> term_x = Finite 1, term_y = Finite 1, battery = Finite 50, covered = 1,
            terminal_id = 1 \<rparr>] 2
        [\<lparr> selected = 1, num_terminals = 3, terminal_ids = [0, 7, 1], num_steiner_points = 1,
            steiner_points = [(Finite (1 / 2), Finite (1 / 2))], cost = Finite 0,
            fst_id = 2 \<rparr>]
       = Inr [Line 400 300 50 550, Line 400 300 750 50, Circle 400 300]"
    by code_simp
qed

section \<open>Properties of the convergence-gap extractor\<close>


lemma gap_new_best_gap [simp]: "gap (gap_new_best line r) = gap r"
  by (simp add: gap_new_best_def split: option.splits list.splits sval.splits)




lemma gap_no_pattern_line: "gap_no_pattern line \<Longrightarrow> gap_line r line = r"
proof -
  assume a: "gap_no_pattern line"
  then have 1: "gap_best_bound line r = r"
    by (auto simp: gap_no_pattern_def gap_best_bound_def split: list.splits sval.splits)
  from a have 2: "gap_mip_gap line r = r"
    by (simp add: gap_no_pattern_def gap_mip_gap_def)
  from a have 3: "gap_mip_optimal line r = r"
    by (auto simp: gap_no_pattern_def gap_mip_optimal_def)
  from a have 4: "gap_new_best line r = r"
    by (auto simp: gap_no_pattern_def gap_new_best_def)
  from a have 5: "gap_best_branch line r = r"
    by (auto simp: gap_no_pattern_def gap_best_branch_def)
  show ?thesis by (simp add: gap_line_def 1 2 3 4 5)
qed

lemma gap_no_pattern_fold:
  "\<forall>l \<in> set ls. gap_no_pattern l \<Longrightarrow> foldl gap_line r ls = r"
  by (induction ls arbitrary: r) (simp_all add: gap_no_pattern_line)






text \<open>
  C6.  If none of the five patterns fires on any line of the log, the extractor returns
  \<open>NaN\<close>.  \<open>NaN\<close> fails the test \<^verbatim>\<open>final_gap >= 0.0\<close> under which the callers print a gap,
  and differs from a gap of 0, which passes it (as the log \<^verbatim>\<open>MIP gap = 0.00%\<close> shows).  A
  log that cannot be opened gives \<open>-1\<close>, which fails the test as well.
\<close>

theorem gap_unavailable:
  "((\<forall>l \<in> set (file_lines 4096 content). gap_no_pattern l) \<longrightarrow>
      parse_final_mip_gap (Some content) = NaN)
   \<and> \<not> gap_reported NaN
   \<and> NaN \<noteq> Finite 0
   \<and> parse_final_mip_gap (Some ''MIP gap = 0.00%\<newline>'') = Finite 0
   \<and> gap_reported (Finite 0)
   \<and> parse_final_mip_gap None = Finite (- 1)
   \<and> \<not> gap_reported (parse_final_mip_gap None)"
proof (intro conjI impI)
  assume "\<forall>l \<in> set (file_lines 4096 content). gap_no_pattern l"
  then have "foldl gap_line gap_regs_init (file_lines 4096 content) = gap_regs_init"
    by (rule gap_no_pattern_fold)
  then show "parse_final_mip_gap (Some content) = NaN"
    by (simp add: parse_final_mip_gap_def gap_estimate_def gap_regs_init_def isnan_def)
next
  show "parse_final_mip_gap (Some ''MIP gap = 0.00%\<newline>'') = Finite 0"
    by code_simp
qed (simp_all add: gap_reported_def parse_final_mip_gap_def d_ge_def d_less_def d_eq_def isnan_def)

theorem gap_unavailable_witness:
  "file_lines 4096 ''Solving...\<newline>done\<newline>'' = [''Solving...\<newline>'', ''done\<newline>'']
   \<and> gap_no_pattern ''Solving...\<newline>''
   \<and> gap_no_pattern ''done\<newline>''
   \<and> parse_final_mip_gap (Some ''Solving...\<newline>done\<newline>'') = NaN"
proof -
  have f: "file_lines 4096 ''Solving...\<newline>done\<newline>'' = [''Solving...\<newline>'', ''done\<newline>'']"
    by code_simp
  have g1: "gap_no_pattern ''Solving...\<newline>''" by code_simp
  have g2: "gap_no_pattern ''done\<newline>''" by code_simp
  show ?thesis
    using gap_unavailable [of "''Solving...\<newline>done\<newline>''"] f g1 g2
    by simp
qed

section \<open>Exit status of the pipeline\<close>

text \<open>
  C2.  The claim has the pipeline end with a non-zero exit status when the terminal file
  cannot be parsed or the report file cannot be created.  In both cases
  \<^verbatim>\<open>create_rich_visualization\<close> writes its error message and returns, and \<^verbatim>\<open>main\<close> goes
  on to \<^verbatim>\<open>return 0\<close>: the report step ends with exit status 0 in every environment.
  Visualization-only mode with an empty terminals file, and with a report file that cannot
  be created, both end with the error message, no report and exit status 0.  A missing
  dump and an unreadable solver log do not stop the report, which then holds an empty
  universe, no edges and a gap that is not reported.
\<close>

theorem report_failure_exit_status_zero:
  "exit_status (main_report_step e) = 0
   \<and> main_visualization_only
        \<lparr> env_terminals = Some [], env_fsts_exists = True, env_dump = None,
          env_solution = Some [], env_html_creatable = True, env_python_ok = False \<rparr>
       = \<lparr> exit_status = 0, stderr = [''Error: Could not parse terminals file''], written = None \<rparr>
   \<and> main_visualization_only
        \<lparr> env_terminals = Some ''0.5 0.5 50.0\<newline>'', env_fsts_exists = True, env_dump = None,
          env_solution = Some [], env_html_creatable = False, env_python_ok = False \<rparr>
       = \<lparr> exit_status = 0, stderr = [''Error: Cannot create HTML file''], written = None \<rparr>
   \<and> main_report_step
        \<lparr> env_terminals = Some ''0.5 0.5 50.0\<newline>'', env_fsts_exists = True, env_dump = None,
          env_solution = None, env_html_creatable = True, env_python_ok = False \<rparr>
       = \<lparr> exit_status = 0, stderr = [],
           written = Some \<lparr> rep_terminals = [\<lparr> term_x = Finite (1 / 2), term_y = Finite (1 / 2),
                                                 battery = Finite 50, covered = 1,
                                                 terminal_id = 0 \<rparr>],
                            rep_universe = [], rep_edges = Inr [], rep_gap = Finite (- 1) \<rparr> \<rparr>"
proof (intro conjI)
  show "exit_status (main_report_step e) = 0"
    by (simp add: main_report_step_def split_beta)
qed code_simp+

end
